theory Spec2Isabelle
  imports Main "HOL-Library.Sublist"
begin

section \<open>Data model\<close>

text \<open>
  Modelled from the spec: the declaration of \<open>K8sObject\<close> lives in
  \<open>lib/kubernetes/api.ts\<close>, which is not among the sources. Section 3 of the
  specification gives the attributes: \<open>apiVersion\<close>, \<open>kind\<close>, \<open>metadata.name\<close>
  (optional), \<open>metadata.namespace\<close> (optional) and an open-ended payload. The \<open>kind\<close>
  is optional here as well, because the path builder has a branch for a missing kind.
  A JavaScript \<open>undefined\<close> is \<open>None\<close>. The \<open>metadata\<close> object itself is always
  there, as in the data model of the specification: the functions below read its fields
  without a check. The payload stands for everything else the object holds.
\<close>

record K8sMetadata =
  name :: "string option"
  namespace :: "string option"

record K8sObject =
  apiVersion :: string
  kind :: "string option"
  metadata :: K8sMetadata
  payload :: string

text \<open>
  A \<open>ProjectFile\<close> is a handle on a file of the project. A handle is identified by
  its path; the content it gives access to is stored in the project.
\<close>

type_synonym ProjectFile = string

record ProjectFileSpec =
  file' :: ProjectFile
  spec :: K8sObject

section \<open>Spec matcher\<close>

text \<open>
  \<^verbatim>\<open>
  export function matchSpec(spec: K8sObject, fileSpecs: ProjectFileSpec[]): ProjectFileSpec | undefined {
      return fileSpecs.find(fs => spec.kind === fs.spec.kind &&
          spec.metadata.name === fs.spec.metadata.name &&
          spec.metadata.namespace === fs.spec.metadata.namespace);
  }
  \<close>
  \<open>Array.prototype.find\<close> returns the first element the predicate accepts, or
  \<open>undefined\<close>; strict equality holds of two \<open>undefined\<close> values.
\<close>

definition matchSpec :: "K8sObject \<Rightarrow> ProjectFileSpec list \<Rightarrow> ProjectFileSpec option" where
  "matchSpec s fileSpecs =
     List.find (\<lambda>fs. kind s = kind (spec fs) \<and>
                     name (metadata s) = name (metadata (spec fs)) \<and>
                     namespace (metadata s) = namespace (metadata (spec fs))) fileSpecs"

section \<open>Strings\<close>

text \<open>
  A string is the list of its characters. The character classes \<open>[a-z]\<close> and
  \<open>[A-Z]\<close> of the regular expressions hold the 26 letters each and no other
  character.
\<close>

definition upperAZ :: string where
  "upperAZ = ''ABCDEFGHIJKLMNOPQRSTUVWXYZ''"

definition lowerAZ :: string where
  "lowerAZ = ''abcdefghijklmnopqrstuvwxyz''"

definition isLowerAZ :: "char \<Rightarrow> bool" where
  "isLowerAZ c = (c \<in> set lowerAZ)"

definition isUpperAZ :: "char \<Rightarrow> bool" where
  "isUpperAZ c = (c \<in> set upperAZ)"

text \<open>The lowercase letter of each of \<open>A\<close>..\<open>Z\<close>; any other character is itself.\<close>

definition lowerChar :: "char \<Rightarrow> char" where
  "lowerChar c = (case map_of (zip upperAZ lowerAZ) c of Some d \<Rightarrow> d | None \<Rightarrow> c)"

text \<open>
  The truth value JavaScript gives an optional string in a condition: \<open>undefined\<close>
  and the empty string are false.
\<close>

fun truthy :: "string option \<Rightarrow> bool" where
  "truthy None = False"
| "truthy (Some []) = False"
| "truthy (Some (c # cs)) = True"

text \<open>What a template literal prints for an optional string.\<close>

fun interpolate :: "string option \<Rightarrow> string" where
  "interpolate None = ''undefined''"
| "interpolate (Some s) = s"

text \<open>\<open>/\.ya?ml$/.test(path)\<close>: the path ends in \<open>.yml\<close> or in \<open>.yaml\<close>.\<close>

definition yamlPath :: "string \<Rightarrow> bool" where
  "yamlPath path = (suffix ''.yml'' path \<or> suffix ''.yaml'' path)"

section \<open>Errors and outcomes\<close>

datatype error = Error string | TypeError string | ValidationError string

fun message :: "error \<Rightarrow> string" where
  "message (Error m) = m"
| "message (TypeError m) = m"
| "message (ValidationError m) = m"

text \<open>\<open>e.message = context + e.message\<close>: the error keeps its class.\<close>

fun prefixMessage :: "string \<Rightarrow> error \<Rightarrow> error" where
  "prefixMessage c (Error m) = Error (c @ m)"
| "prefixMessage c (TypeError m) = TypeError (c @ m)"
| "prefixMessage c (ValidationError m) = ValidationError (c @ m)"

text \<open>
  A call returns a value, or throws; both leave a state behind. \<open>Unfinished\<close> is a
  call whose loop is still running when the random identifiers supplied to it are
  used up.
\<close>

datatype ('a, 's) outcome = Returns 'a 's | Throws error 's | Unfinished

section \<open>Collaborators\<close>

text \<open>
  The sync options (\<open>KubernetesSyncOptions\<close> of \<open>lib/config.ts\<close>, as the tests build
  them): the repository, of which the owner and the name are read, and the optional key
  that encrypts secrets. Credentials play no role in what follows.
\<close>

record KubernetesSyncOptions =
  repoOwner :: string
  repoName :: string
  secretKey :: "string option"

text \<open>
  The application: \<open>KubernetesDelete\<close> of \<open>lib/kubernetes/request.ts\<close>, with the
  fields the tests give it. Its field \<open>name\<close> is \<open>appname\<close> here, \<open>name\<close> being
  the field of the metadata.
\<close>

record KubernetesDelete =
  appname :: string
  ns :: string
  workspaceId :: string

text \<open>
  Modelled from the spec: \<open>appName\<close> is defined in \<open>lib/kubernetes/request.ts\<close>, which
  is not among the sources. The commit message of the specification is
  \<open>{Update|Delete} specs for {namespace}/{name}\<close>.
\<close>

definition appName :: "KubernetesDelete \<Rightarrow> string" where
  "appName app = ns app @ ''/'' @ appname app"

datatype SpecFormat = Json | Yaml

text \<open>
  What the functions of this module call and this repository does not define, or defines
  in a file that is not among the sources: the parser of a spec file (its result is the
  message of the error it throws, or the spec), the two serializers, the encryption of a
  secret, the glob of the spec files, the commit tag, the validity of the sync options,
  and the errors \<open>commit\<close> and \<open>push\<close> throw, if they do. With them goes
  \<open>String.prototype.toLowerCase\<close>, the built-in of the language: it lowers every
  cased letter of Unicode, by tables of the engine that are not reproduced here, so
  what is proved of a call holds whatever these tables are.
\<close>

record Externals =
  parseKubernetesSpecFile :: "string \<Rightarrow> string \<Rightarrow> string + K8sObject"
  safeDump :: "K8sObject \<Rightarrow> string"
  stableStringify :: "K8sObject \<Rightarrow> string"
  encryptSecret :: "K8sObject \<Rightarrow> string \<Rightarrow> K8sObject"
  k8sSpecGlob :: "string \<Rightarrow> bool"
  commitTag :: string
  validSyncOptions :: "KubernetesSyncOptions \<Rightarrow> bool"
  commitError :: "error option"
  pushError :: "error option"
  toLowerCase :: "string \<Rightarrow> string"

text \<open>
  The state the sync works on: the files of the working copy of the sync repository
  (path and content, in the order a walk of the project visits them), the files of its
  last commit, the messages of the commits made, the number of pushes, the values the
  next calls of \<open>guid()\<close> return, the lines given to the logger and the number of
  times the project loader was asked for the project.
\<close>

record World =
  files :: "(string \<times> string) list"
  headFiles :: "(string \<times> string) list"
  commits :: "string list"
  pushes :: nat
  guidDraws :: "string list"
  logLines :: "string list"
  projectLoads :: nat

definition getFile :: "World \<Rightarrow> string \<Rightarrow> string option" where
  "getFile w path = map_of (files w) path"

definition setContent :: "string \<Rightarrow> string \<Rightarrow> World \<Rightarrow> World" where
  "setContent path content w =
     w\<lparr>files := map (\<lambda>(q, c). if q = path then (q, content) else (q, c)) (files w)\<rparr>"

definition addFile :: "string \<Rightarrow> string \<Rightarrow> World \<Rightarrow> World" where
  "addFile path content w =
     (if getFile w path = None then w\<lparr>files := files w @ [(path, content)]\<rparr>
      else setContent path content w)"

definition deleteFile :: "string \<Rightarrow> World \<Rightarrow> World" where
  "deleteFile path w = w\<lparr>files := filter (\<lambda>(q, c). q \<noteq> path) (files w)\<rparr>"

text \<open>
  The working copy is clean when it holds what the last commit holds: the same paths
  with the same contents.
\<close>

definition isClean :: "World \<Rightarrow> bool" where
  "isClean w = (set (files w) \<subseteq> set (headFiles w) \<and> set (headFiles w) \<subseteq> set (files w))"

definition commit :: "Externals \<Rightarrow> string \<Rightarrow> World \<Rightarrow> (unit, World) outcome" where
  "commit ext msg w =
     (case commitError ext of
        Some e \<Rightarrow> Throws e w
      | None \<Rightarrow> Returns () (w\<lparr>headFiles := files w, commits := commits w @ [msg]\<rparr>))"

definition push :: "Externals \<Rightarrow> World \<Rightarrow> (unit, World) outcome" where
  "push ext w =
     (case pushError ext of
        Some e \<Rightarrow> Throws e w
      | None \<Rightarrow> Returns () (w\<lparr>pushes := Suc (pushes w)\<rparr>))"

section \<open>File basename of a spec\<close>

text \<open>
  \<^verbatim>\<open>resource.kind.replace(/([a-z])([A-Z])/g, "$1-$2")\<close>: the scan goes from left to
  right; at a match the two characters are consumed and the scan resumes after them.
\<close>

fun kebabReplace :: "string \<Rightarrow> string" where
  "kebabReplace (a # b # rest) =
     (if isLowerAZ a \<and> isUpperAZ b then a # CHR ''-'' # b # kebabReplace rest
      else a # kebabReplace (b # rest))"
| "kebabReplace s = s"

text \<open>The \<open>switch (resource.kind)\<close> of \<open>kubernetesSpecFileBasename\<close>.\<close>

definition specPrefix :: "string option \<Rightarrow> string" where
  "specPrefix k =
     (if k = Some ''Namespace'' then ''10''
      else if k = Some ''PersistentVolume'' \<or> k = Some ''StorageClass'' then ''15''
      else if k = Some ''ServiceAccount'' then ''20''
      else if k = Some ''ClusterRole'' \<or> k = Some ''Role'' then ''25''
      else if k = Some ''ClusterRoleBinding'' \<or> k = Some ''RoleBinding'' then ''30''
      else if k = Some ''NetworkPolicy'' \<or> k = Some ''PersistentVolumeClaim''
              \<or> k = Some ''PodSecurityPolicy'' then ''40''
      else if k = Some ''Service'' then ''50''
      else if k = Some ''ConfigMap'' \<or> k = Some ''Secret'' then ''60''
      else if k = Some ''CronJob'' \<or> k = Some ''DaemonSet'' \<or> k = Some ''Deployment''
              \<or> k = Some ''StatefulSet'' then ''70''
      else if k = Some ''HorizontalPodAutoscaler'' \<or> k = Some ''Ingress''
              \<or> k = Some ''PodDisruptionBudget'' then ''80''
      else ''90'')"

text \<open>
  \<^verbatim>\<open>
  const ns = (resource.metadata.namespace) ? `${resource.metadata.namespace}_` : "";
  const kebabKind = resource.kind.replace(/([a-z])([A-Z])/g, "$1-$2");
  return `${prefix}_${ns}${resource.metadata.name}_${kebabKind}`.toLowerCase();
  \<close>
  Calling \<open>replace\<close> on an undefined kind throws a \<open>TypeError\<close> (the text of its
  message is the engine's). The whole string goes through \<open>toLowerCase\<close>, the
  built-in of the collaborators.
\<close>

definition kubernetesSpecFileBasename :: "Externals \<Rightarrow> K8sObject \<Rightarrow> error + string" where
  "kubernetesSpecFileBasename ext resource =
     (let ns = (if truthy (namespace (metadata resource))
                then interpolate (namespace (metadata resource)) @ ''_'' else [])
      in case kind resource of
           None \<Rightarrow> Inl (TypeError ''Cannot read property replace of undefined'')
         | Some k \<Rightarrow>
             Inr (toLowerCase ext (specPrefix (kind resource) @ ''_'' @ ns
                    @ interpolate (name (metadata resource)) @ ''_'' @ kebabReplace k)))"

section \<open>Serializing a spec\<close>

text \<open>
  \<^verbatim>\<open>
  let resource = spec;
  if (resource.kind === "Secret" && options.secretKey) {
      resource = await encryptSecret(resource, options.secretKey);
  }
  if (options.format === "yaml") {
      return yaml.safeDump(resource, { sortKeys: true });
  } else {
      return stableStringify(resource, { space: 2 }) + "\n";
  }
  \<close>
\<close>

definition kubernetesSpecStringify ::
  "Externals \<Rightarrow> K8sObject \<Rightarrow> SpecFormat \<Rightarrow> string option \<Rightarrow> string" where
  "kubernetesSpecStringify ext s fmt key =
     (let resource = (if kind s = Some ''Secret'' \<and> truthy key
                      then encryptSecret ext s (interpolate key) else s)
      in if fmt = Yaml then safeDump ext resource
         else stableStringify ext resource @ [CHR 0x0A])"

section \<open>The sync pass\<close>

text \<open>
  \<^verbatim>\<open>
  let specPath = specRoot + specExt;
  while (await p.getFile(specPath)) {
      specPath = specRoot + "_" + guid().split("-")[0] + specExt;
  }
  return specPath;
  \<close>
  The loop takes the values of \<open>guid()\<close> from the state; with none left while the
  path is still taken, the call is \<open>Unfinished\<close>.
\<close>

fun uniqueSpecFileLoop :: "string \<Rightarrow> string list \<Rightarrow> string \<Rightarrow> World \<Rightarrow> (string, World) outcome" where
  "uniqueSpecFileLoop specRoot [] specPath w =
     (if getFile w specPath \<noteq> None then Unfinished
      else Returns specPath (w\<lparr>guidDraws := []\<rparr>))"
| "uniqueSpecFileLoop specRoot (g # gs) specPath w =
     (if getFile w specPath \<noteq> None then
        uniqueSpecFileLoop specRoot gs
          (specRoot @ ''_'' @ takeWhile (\<lambda>c. c \<noteq> CHR ''-'') g @ ''.json'') w
      else Returns specPath (w\<lparr>guidDraws := g # gs\<rparr>))"

definition uniqueSpecFile :: "Externals \<Rightarrow> K8sObject \<Rightarrow> World \<Rightarrow> (string, World) outcome" where
  "uniqueSpecFile ext resource w =
     (case kubernetesSpecFileBasename ext resource of
        Inl e \<Rightarrow> Throws e w
      | Inr specRoot \<Rightarrow> uniqueSpecFileLoop specRoot (guidDraws w) (specRoot @ ''.json'') w)"

text \<open>
  \<^verbatim>\<open>
  const stringifyOptions: KubernetesSpecStringifyOptions = {
      format: (fs && fs.file && /\.ya?ml$/.test(fs.file.path)) ? "yaml" : "json",
      secretKey: opts.secretKey,
  };
  const resourceString = await kubernetesSpecStringify(resource, stringifyOptions);
  if (fs) {
      await fs.file.setContent(resourceString);
  } else {
      const specPath = await uniqueSpecFile(resource, p);
      await p.addFile(specPath, resourceString);
  }
  \<close>
\<close>

definition resourceUpserted ::
  "Externals \<Rightarrow> K8sObject \<Rightarrow> World \<Rightarrow> ProjectFileSpec option \<Rightarrow> KubernetesSyncOptions
     \<Rightarrow> (unit, World) outcome" where
  "resourceUpserted ext resource w fs opts =
     (let fmt = (case fs of
                   Some f \<Rightarrow> if yamlPath (file' f) then Yaml else Json
                 | None \<Rightarrow> Json);
          resourceString = kubernetesSpecStringify ext resource fmt (secretKey opts)
      in case fs of
           Some f \<Rightarrow> Returns () (setContent (file' f) resourceString w)
         | None \<Rightarrow>
             (case uniqueSpecFile ext resource w of
                Returns specPath w' \<Rightarrow> Returns () (addFile specPath resourceString w')
              | Throws e w' \<Rightarrow> Throws e w'
              | Unfinished \<Rightarrow> Unfinished))"

definition resourceDeleted ::
  "K8sObject \<Rightarrow> World \<Rightarrow> ProjectFileSpec option \<Rightarrow> (unit, World) outcome" where
  "resourceDeleted resource w fs =
     (case fs of
        Some f \<Rightarrow> Returns () (deleteFile (file' f) w)
      | None \<Rightarrow> Returns () w)"

datatype SyncAction = SyncUpsert | SyncDelete

text \<open>
  The scan of \<open>syncResources\<close>: every file of the project that the glob accepts is
  parsed; a spec is pushed on \<open>specs\<close>, an error is caught and logged as a warning.
  The result is the specs and the warnings, both in the order of the walk.
\<close>

fun scanSpecs :: "Externals \<Rightarrow> (string \<times> string) list \<Rightarrow> ProjectFileSpec list \<times> string list" where
  "scanSpecs ext [] = ([], [])"
| "scanSpecs ext ((path, content) # rest) =
     (let (specs, warnings) = scanSpecs ext rest
      in if \<not> k8sSpecGlob ext path then (specs, warnings)
         else (case parseKubernetesSpecFile ext path content of
                 Inr s \<Rightarrow> (\<lparr>file' = path, spec = s\<rparr> # specs, warnings)
               | Inl m \<Rightarrow>
                   (specs,
                    (''Failed to process sync repo spec '' @ path @ '', ignoring: '' @ m)
                      # warnings)))"

text \<open>
  \<^verbatim>\<open>
  for (const resource of resources) {
      const fileSpec = matchSpec(resource, specs);
      await syncAction(resource, syncProject, fileSpec, opts);
  }
  \<close>
\<close>

fun syncLoop ::
  "Externals \<Rightarrow> SyncAction \<Rightarrow> KubernetesSyncOptions \<Rightarrow> ProjectFileSpec list
     \<Rightarrow> K8sObject list \<Rightarrow> World \<Rightarrow> (unit, World) outcome" where
  "syncLoop ext action opts specs [] w = Returns () w"
| "syncLoop ext action opts specs (resource # resources) w =
     (case (if action = SyncDelete
            then resourceDeleted resource w (matchSpec resource specs)
            else resourceUpserted ext resource w (matchSpec resource specs) opts) of
        Returns u w' \<Rightarrow> syncLoop ext action opts specs resources w'
      | Throws e w' \<Rightarrow> Throws e w'
      | Unfinished \<Rightarrow> Unfinished)"

text \<open>
  \<^verbatim>\<open>
  if (await syncProject.isClean()) {
      return;
  }
  try {
      await syncProject.commit(`${syncVerb} specs for ${appName(app)}\n\n[atomist:generated] ${commitTag()}\n`);
      await syncProject.push();
  } catch (e) {
      e.message = `Failed to commit and push resource changes to sync repo: ${e.message}`;
      logger.error(e.message);
      throw e;
  }
  \<close>
\<close>

definition commitMessage :: "Externals \<Rightarrow> SyncAction \<Rightarrow> KubernetesDelete \<Rightarrow> string" where
  "commitMessage ext action app =
     (if action = SyncDelete then ''Delete'' else ''Update'') @ '' specs for '' @ appName app
       @ [CHR 0x0A, CHR 0x0A] @ ''[atomist:generated] '' @ commitTag ext @ [CHR 0x0A]"

definition rethrowCommitFailure :: "error \<Rightarrow> World \<Rightarrow> (unit, World) outcome" where
  "rethrowCommitFailure e w =
     (let e' = prefixMessage ''Failed to commit and push resource changes to sync repo: '' e
      in Throws e' (w\<lparr>logLines := logLines w @ [message e']\<rparr>))"

definition commitAndPush ::
  "Externals \<Rightarrow> SyncAction \<Rightarrow> KubernetesDelete \<Rightarrow> World \<Rightarrow> (unit, World) outcome" where
  "commitAndPush ext action app w =
     (if isClean w then Returns () w
      else (case commit ext (commitMessage ext action app) w of
              Returns u w' \<Rightarrow>
                (case push ext w' of
                   Returns u' w'' \<Rightarrow> Returns () w''
                 | Throws e w'' \<Rightarrow> rethrowCommitFailure e w''
                 | Unfinished \<Rightarrow> Unfinished)
            | Throws e w' \<Rightarrow> rethrowCommitFailure e w'
            | Unfinished \<Rightarrow> Unfinished))"

definition syncResources ::
  "Externals \<Rightarrow> KubernetesDelete \<Rightarrow> K8sObject list \<Rightarrow> SyncAction \<Rightarrow> KubernetesSyncOptions
     \<Rightarrow> World \<Rightarrow> (unit, World) outcome" where
  "syncResources ext app resources action opts w =
     (let (specs, warnings) = scanSpecs ext (files w)
      in case syncLoop ext action opts specs resources
                (w\<lparr>logLines := logLines w @ warnings\<rparr>) of
           Returns u w' \<Rightarrow> commitAndPush ext action app w'
         | Throws e w' \<Rightarrow> Throws e w'
         | Unfinished \<Rightarrow> Unfinished)"

text \<open>
  \<^verbatim>\<open>
  const slug = appName(app);
  const syncOpts = configurationValue<Partial<KubernetesSyncOptions>>("sdm.k8s.options.sync", {});
  if (!validSyncOptions(syncOpts)) {
      return;
  }
  const syncRepo = syncOpts.repo as RemoteRepoRef;
  if (resources.length < 1) {
      return;
  }
  ...
  try {
      await projectLoader.doWithProject(projectLoadingParameters, syncResources(app, resources, action, syncOpts));
  } catch (e) {
      e.message = `Failed to perform sync resources from ${slug} to sync repo ${syncRepo.owner}/${syncRepo.repo}: ${e.message}`;
      logger.error(e.message);
      throw e;
  }
  \<close>
  The configured sync options are an argument; loading the project is counted in the
  state.
\<close>

definition syncApplication ::
  "Externals \<Rightarrow> KubernetesSyncOptions \<Rightarrow> KubernetesDelete \<Rightarrow> K8sObject list \<Rightarrow> SyncAction
     \<Rightarrow> World \<Rightarrow> (unit, World) outcome" where
  "syncApplication ext syncOpts app resources action w =
     (let slug = appName app
      in if \<not> validSyncOptions ext syncOpts then Returns () w
         else if length resources < 1 then Returns () w
         else (case syncResources ext app resources action syncOpts
                      (w\<lparr>projectLoads := Suc (projectLoads w)\<rparr>) of
                 Returns u w' \<Rightarrow> Returns () w'
               | Throws e w' \<Rightarrow>
                   (let e' = prefixMessage
                               (''Failed to perform sync resources from '' @ slug
                                  @ '' to sync repo '' @ repoOwner syncOpts @ ''/''
                                  @ repoName syncOpts @ '': '') e
                    in Throws e' (w'\<lparr>logLines := logLines w' @ [message e']\<rparr>))
               | Unfinished \<Rightarrow> Unfinished))"

section \<open>The basename as the specification words it\<close>

text \<open>
  Section 4.5 of the specification, to be compared with \<open>kubernetesSpecFileBasename\<close>:
  a hyphen goes between a lowercase letter and a following uppercase letter (every such
  boundary), and the two-digit class priority comes from a table, 90 for a kind the
  table does not list.
\<close>

fun hyphenateBoundaries :: "string \<Rightarrow> string" where
  "hyphenateBoundaries (a # b # rest) =
     (if isLowerAZ a \<and> isUpperAZ b then a # CHR ''-'' # hyphenateBoundaries (b # rest)
      else a # hyphenateBoundaries (b # rest))"
| "hyphenateBoundaries s = s"

definition classPriorities :: "(string \<times> nat) list" where
  "classPriorities =
     [(''Namespace'', 10),
      (''PersistentVolume'', 15), (''StorageClass'', 15),
      (''ServiceAccount'', 20),
      (''ClusterRole'', 25), (''Role'', 25),
      (''ClusterRoleBinding'', 30), (''RoleBinding'', 30),
      (''NetworkPolicy'', 40), (''PersistentVolumeClaim'', 40), (''PodSecurityPolicy'', 40),
      (''Service'', 50),
      (''ConfigMap'', 60), (''Secret'', 60),
      (''CronJob'', 70), (''DaemonSet'', 70), (''Deployment'', 70), (''StatefulSet'', 70),
      (''HorizontalPodAutoscaler'', 80), (''Ingress'', 80), (''PodDisruptionBudget'', 80)]"

definition classPriority :: "string \<Rightarrow> nat" where
  "classPriority k = (case map_of classPriorities k of Some p \<Rightarrow> p | None \<Rightarrow> 90)"

definition twoDigits :: "nat \<Rightarrow> string" where
  "twoDigits n = [''0123456789'' ! (n div 10 mod 10), ''0123456789'' ! (n mod 10)]"

section \<open>Abbreviations used in the statements\<close>

text \<open>
  The path the loop of \<open>uniqueSpecFile\<close> tries for a value \<open>g\<close> of \<open>guid()\<close>,
  and the object \<open>kubernetesSpecStringify\<close> serializes: the resource, or the encrypted
  secret when the resource is a \<open>Secret\<close> and a key is given.
\<close>

definition guidCandidate :: "string \<Rightarrow> string \<Rightarrow> string" where
  "guidCandidate specRoot g = specRoot @ ''_'' @ takeWhile (\<lambda>c. c \<noteq> CHR ''-'') g @ ''.json''"

definition serialized :: "Externals \<Rightarrow> K8sObject \<Rightarrow> string option \<Rightarrow> K8sObject" where
  "serialized ext r key =
     (if kind r = Some ''Secret'' \<and> truthy key then encryptSecret ext r (the key) else r)"

text \<open>
  For the idempotence of the sync pass: the identity of a spec (what \<open>matchSpec\<close>
  compares), the identity the scan gives a file (none when the glob rejects the file or
  the parser fails), the string an upsert writes at a path, and the invariant of a first
  pass over the files \<open>fs0\<close>: the paths are distinct; the files are those of \<open>fs0\<close>,
  each at its path and with its identity, followed by new files that carry the identity
  of a resource already processed; and the first file with the identity of a processed
  resource holds that resource as an upsert writes it.
\<close>

definition specIdentity :: "K8sObject \<Rightarrow> string option \<times> string option \<times> string option" where
  "specIdentity s = (kind s, name (metadata s), namespace (metadata s))"

definition fileIdentity ::
  "Externals \<Rightarrow> string \<times> string \<Rightarrow> (string option \<times> string option \<times> string option) option" where
  "fileIdentity ext e =
     (if k8sSpecGlob ext (fst e)
      then (case parseKubernetesSpecFile ext (fst e) (snd e) of
              Inr s \<Rightarrow> Some (specIdentity s)
            | Inl m \<Rightarrow> None)
      else None)"

definition written :: "Externals \<Rightarrow> KubernetesSyncOptions \<Rightarrow> K8sObject \<Rightarrow> string \<Rightarrow> string" where
  "written ext opts r path =
     kubernetesSpecStringify ext r (if yamlPath path then Yaml else Json) (secretKey opts)"

definition tracked ::
  "Externals \<Rightarrow> KubernetesSyncOptions \<Rightarrow> (string \<times> string) list \<Rightarrow> K8sObject list
     \<Rightarrow> (string \<times> string) list \<Rightarrow> bool" where
  "tracked ext opts fs0 seen fs \<longleftrightarrow>
     distinct (map fst fs) \<and>
     (\<exists>old new. fs = old @ new \<and>
        list_all2 (\<lambda>e e0. fst e = fst e0 \<and> fileIdentity ext e = fileIdentity ext e0) old fs0 \<and>
        (\<forall>e \<in> set new. \<exists>r \<in> set seen. fileIdentity ext e = Some (specIdentity r))) \<and>
     (\<forall>r \<in> set seen. \<exists>p.
        List.find (\<lambda>e. fileIdentity ext e = Some (specIdentity r)) fs
          = Some (p, written ext opts r p))"

section \<open>Resource classifier and URI path builder\<close>

text \<open>
  Modelled from the spec: \<open>K8sApiAction\<close> is declared in \<open>lib/kubernetes/api.ts\<close>, which
  is not among the sources. Section 3: an action is one of \<open>create\<close>, \<open>delete\<close>,
  \<open>list\<close>, \<open>patch\<close>, \<open>read\<close>, \<open>replace\<close>.
\<close>

datatype K8sApiAction = Create | Delete | List | Patch | Read | Replace

text \<open>
  Modelled from the spec: the list of cluster resources of \<open>lib/kubernetes/api.ts\<close>
  (not among the sources), as section 4.1 enumerates it.
\<close>

definition clusterResources :: "string list" where
  "clusterResources =
     [''APIService'', ''AuditSink'', ''CertificateSigningRequest'', ''ClusterCustomObject'',
      ''ClusterRole'', ''ClusterRoleBinding'', ''CustomResourceDefinition'',
      ''InitializerConfiguration'', ''MutatingWebhookConfiguration'', ''Namespace'', ''Node'',
      ''PersistentVolume'', ''PodSecurityPolicy'', ''PriorityClass'',
      ''SelfSubjectAccessReview'', ''SelfSubjectRulesReview'', ''StorageClass'',
      ''SubjectAccessReview'', ''TokenReview'', ''ValidatingWebhookConfiguration'',
      ''VolumeAttachment'']"

text \<open>
  Modelled from the spec: the status kinds of \<open>lib/kubernetes/api.ts\<close> (not among the
  sources), as section 4.1 enumerates them.
\<close>

definition clusterStatuses :: "string list" where
  "clusterStatuses =
     [''APIServiceStatus'', ''CertificateSigningRequestStatus'',
      ''CustomResourceDefinitionStatus'', ''NamespaceStatus'', ''NodeStatus'',
      ''PersistentVolumeStatus'', ''VolumeAttachmentStatus'']"

text \<open>
  Modelled from the spec: \<open>isClusterResource\<close> of \<open>lib/kubernetes/api.ts\<close> (not among
  the sources). Section 4.1: a kind of the cluster-resource set is a cluster resource
  whatever the action; else a status kind is one only for \<open>patch\<close>, \<open>read\<close> and
  \<open>replace\<close>; \<open>ComponentStatus\<close> is one only for \<open>list\<close> and \<open>read\<close>; every other
  kind is namespaced.
\<close>

definition isClusterResource :: "K8sApiAction \<Rightarrow> string \<Rightarrow> bool" where
  "isClusterResource action k =
     (if k \<in> set clusterResources then True
      else if k \<in> set clusterStatuses then action = Patch \<or> action = Read \<or> action = Replace
      else if k = ''ComponentStatus'' then action = List \<or> action = Read
      else False)"

text \<open>
  Modelled from the spec: the \<open>appendName\<close> option of \<open>uriOpts\<close> in
  \<open>lib/kubernetes/api.ts\<close> (not among the sources). Section 4.2: true for \<open>delete\<close>,
  \<open>patch\<close>, \<open>read\<close> and \<open>replace\<close>, false for \<open>create\<close> and \<open>list\<close>.
\<close>

definition appendName :: "K8sApiAction \<Rightarrow> bool" where
  "appendName action = (action = Delete \<or> action = Patch \<or> action = Read \<or> action = Replace)"

text \<open>
  Modelled from the spec: the table of irregular plurals of \<open>lib/kubernetes/api.ts\<close> (not
  among the sources). Sections 3 and 4.2 name the kinds whose plural is not the lowercased
  kind plus \<open>s\<close>, and section 9 makes the table authoritative, extended by literal
  entries only.
\<close>

definition irregularPlurals :: "(string \<times> string) list" where
  "irregularPlurals =
     [(''Ingress'', ''ingresses''), (''NetworkPolicy'', ''networkpolicies''),
      (''StorageClass'', ''storageclasses'')]"

text \<open>
  Modelled from the spec: the lowercase of step 3 of section 4.2, taken of a kind. A
  kind is a PascalCase type name (section 3): its letters \<open>A\<close>..\<open>Z\<close> become
  \<open>a\<close>..\<open>z\<close>.
\<close>

definition lowercaseKind :: "string \<Rightarrow> string" where
  "lowercaseKind k = map lowerChar k"

text \<open>
  Modelled from the spec: the plural of a kind in \<open>specUriPath\<close> (step 3 of section 4.2):
  lowercase plus \<open>s\<close>, overridden by the table.
\<close>

definition pluralKind :: "string \<Rightarrow> string" where
  "pluralKind k = (case map_of irregularPlurals k of Some p \<Rightarrow> p | None \<Rightarrow> lowercaseKind k @ ''s'')"

text \<open>
  Modelled from the spec: \<open>specUriPath\<close> of \<open>lib/kubernetes/api.ts\<close> (not among the
  sources), after the six steps of section 4.2. A missing kind fails first (step 1).
  A missing name fails when the action appends the name (step 5). Step 4 is worded
  twice: it first fails for a required namespace that is missing, then takes this back
  (\<open>actually\<close>): the namespace segment is there when \<open>metadata.namespace\<close> is set, a
  namespace that the classification requires and the spec lacks is tolerated for
  \<open>create\<close> and \<open>list\<close>, and it is required \<open>when accessing a named resource\<close>. The
  model follows the second wording: the namespace is required of a resource that has
  the name the action appends, so that a missing name gives the name error whatever the
  namespace, as section 8 has it (\<open>Missing name when required\<close>, with no condition on
  the namespace). The text after the colon of a message (the specification prints an
  ellipsis) is \<open>stringify\<close> of the spec, a parameter.
\<close>

definition specUriPath ::
  "(K8sObject \<Rightarrow> string) \<Rightarrow> K8sObject \<Rightarrow> K8sApiAction \<Rightarrow> error + string" where
  "specUriPath stringify s action =
     (case kind s of
        None \<Rightarrow> Inl (ValidationError (''Spec does not contain kind: '' @ stringify s))
      | Some k \<Rightarrow>
          if appendName action \<and> name (metadata s) = None
          then Inl (ValidationError (''Spec does not contain name: '' @ stringify s))
          else if appendName action \<and> \<not> isClusterResource action k \<and> namespace (metadata s) = None
          then Inl (ValidationError (''Spec does not contain namespace: '' @ stringify s))
          else Inr (apiVersion s @ ''/''
                 @ (case namespace (metadata s) of
                      Some n \<Rightarrow> ''namespaces/'' @ n @ ''/'' | None \<Rightarrow> [])
                 @ pluralKind k
                 @ (if appendName action then ''/'' @ interpolate (name (metadata s)) else [])))"

section \<open>Test objects\<close>

text \<open>The objects of \<open>test/sync/application.test.ts\<close> and \<open>test/kubernetes/api.test.ts\<close>.\<close>

definition testObject :: "string \<Rightarrow> string \<Rightarrow> string \<Rightarrow> string option \<Rightarrow> K8sObject" where
  "testObject v k n nsp =
     \<lparr>apiVersion = v, kind = Some k, metadata = \<lparr>name = Some n, namespace = nsp\<rparr>,
      payload = []\<rparr>"

definition severalFileSpecs :: "ProjectFileSpec list" where
  "severalFileSpecs =
     [\<lparr>file' = ''svc.json'', spec = testObject ''v1'' ''Service'' ''lyle'' (Some ''lovett'')\<rparr>,
      \<lparr>file' = ''jondep.json'', spec = testObject ''apps/v1'' ''Deployment'' ''jon'' (Some ''lovett'')\<rparr>,
      \<lparr>file' = ''dep.json'', spec = testObject ''apps/v1'' ''Deployment'' ''lyle'' (Some ''lovett'')\<rparr>,
      \<lparr>file' = ''beta-dep.json'',
        spec = testObject ''extensions/v1beta1'' ''Deployment'' ''lyle'' (Some ''lovett'')\<rparr>]"

text \<open>
  Collaborators for the examples: two serializers that print the identity and the payload
  of a spec, a parser that reads back the contents of a table and fails on any other,
  the glob of the JSON and YAML files, a \<open>commit\<close> and a \<open>push\<close> that succeed,
  and for \<open>toLowerCase\<close> its values on the strings of the examples, which hold no
  cased letter other than \<open>A\<close>..\<open>Z\<close> and \<open>a\<close>..\<open>z\<close>: there the built-in
  turns each of \<open>A\<close>..\<open>Z\<close> into its lowercase letter.
\<close>

text \<open>The list of the test \<open>should find nothing\<close>.\<close>

definition nearMissFileSpecs :: "ProjectFileSpec list" where
  "nearMissFileSpecs =
     [\<lparr>file' = ''svc.json'', spec = testObject ''v1'' ''Service'' ''lyle'' (Some ''lovett'')\<rparr>,
      \<lparr>file' = ''jondep.json'', spec = testObject ''apps/v1'' ''Deployment'' ''jon'' (Some ''lovett'')\<rparr>,
      \<lparr>file' = ''dep.json'', spec = testObject ''apps/v1'' ''Deployment'' ''lyle'' (Some ''alzado'')\<rparr>,
      \<lparr>file' = ''beta-dep.json'',
        spec = testObject ''extensions/v1beta1'' ''Deployment'' ''lyle'' (Some ''lovett'')\<rparr>]"

definition describe :: "K8sObject \<Rightarrow> string" where
  "describe r = interpolate (kind r) @ '' '' @ interpolate (namespace (metadata r)) @ ''/''
     @ interpolate (name (metadata r)) @ '' '' @ payload r"

definition testExternals :: "(string \<times> K8sObject) list \<Rightarrow> Externals" where
  "testExternals table =
     \<lparr>parseKubernetesSpecFile =
        (\<lambda>path content. case map_of table content of
                           Some s \<Rightarrow> Inr s | None \<Rightarrow> Inl ''Unexpected token''),
      safeDump = (\<lambda>r. ''yaml '' @ describe r),
      stableStringify = (\<lambda>r. ''json '' @ describe r),
      encryptSecret = (\<lambda>r key. r\<lparr>payload := ''encrypted''\<rparr>),
      k8sSpecGlob = (\<lambda>path. suffix ''.json'' path \<or> yamlPath path),
      commitTag = ''[atomist:sync-commit=@atomist/sdm-pack-k8s]'',
      validSyncOptions = (\<lambda>opts. repoOwner opts \<noteq> [] \<and> repoName opts \<noteq> []),
      commitError = None,
      pushError = None,
      toLowerCase = map lowerChar\<rparr>"

definition testOptions :: KubernetesSyncOptions where
  "testOptions = \<lparr>repoOwner = ''tonina'', repoName = ''black-angel'', secretKey = None\<rparr>"

definition tonina :: KubernetesDelete where
  "tonina = \<lparr>appname = ''tonina'', ns = ''black-angel'', workspaceId = ''T0N1N4''\<rparr>"

definition toninaServiceAccount :: K8sObject where
  "toninaServiceAccount = testObject ''v1'' ''ServiceAccount'' ''tonina'' (Some ''black-angel'')"

definition toninaService :: K8sObject where
  "toninaService = testObject ''v1'' ''Service'' ''tonina'' (Some ''black-angel'')"

definition toninaIngress :: K8sObject where
  "toninaIngress = testObject ''extensions/v1beta1'' ''Ingress'' ''tonina'' (Some ''black-angel'')"

definition toninaTable :: "(string \<times> K8sObject) list" where
  "toninaTable = [(''kind: ServiceAccount'', toninaServiceAccount)]"

definition toninaWorld :: World where
  "toninaWorld =
     \<lparr>files = [(''black-angel-tonina-deployment.json'', ''{''),
               (''50_black-angel_tonina_service.json'', ''{}''),
               (''black-angel-tonina-service-acct.yaml'', ''kind: ServiceAccount'')],
      headFiles = [(''black-angel-tonina-deployment.json'', ''{''),
               (''50_black-angel_tonina_service.json'', ''{}''),
               (''black-angel-tonina-service-acct.yaml'', ''kind: ServiceAccount'')],
      commits = [], pushes = 0,
      guidDraws = [''0a1b2c3d-4e5f-4a6b-8c7d-9e0f1a2b3c4d''],
      logLines = [], projectLoads = 0\<rparr>"

definition toninaDeleted :: World where
  "toninaDeleted =
     \<lparr>files = [(''black-angel-tonina-deployment.json'', ''{''),
               (''50_black-angel_tonina_service.json'', ''{}'')],
      headFiles = [(''black-angel-tonina-deployment.json'', ''{''),
               (''50_black-angel_tonina_service.json'', ''{}''),
               (''black-angel-tonina-service-acct.yaml'', ''kind: ServiceAccount'')],
      commits = [], pushes = 0,
      guidDraws = [''0a1b2c3d-4e5f-4a6b-8c7d-9e0f1a2b3c4d''],
      logLines =
        [''Failed to process sync repo spec black-angel-tonina-deployment.json, ignoring: Unexpected token'',
         ''Failed to process sync repo spec 50_black-angel_tonina_service.json, ignoring: Unexpected token''],
      projectLoads = 0\<rparr>"


text \<open>
  Two resources with one identity and two payloads, an empty repository, and the states
  after a first and a second upsert pass over them.
\<close>

definition twinA :: K8sObject where
  "twinA = (testObject ''apps/v1'' ''Deployment'' ''tonina'' (Some ''black-angel''))
             \<lparr>payload := ''replicas: 1''\<rparr>"

definition twinB :: K8sObject where
  "twinB = (testObject ''apps/v1'' ''Deployment'' ''tonina'' (Some ''black-angel''))
             \<lparr>payload := ''replicas: 2''\<rparr>"

definition twinTable :: "(string \<times> K8sObject) list" where
  "twinTable =
     [(''json Deployment black-angel/tonina replicas: 1\<newline>'', twinA),
      (''json Deployment black-angel/tonina replicas: 2\<newline>'', twinB)]"

definition emptyWorld :: World where
  "emptyWorld =
     \<lparr>files = [], headFiles = [], commits = [], pushes = 0,
      guidDraws = [''0a1b2c3d-4e5f-4a6b-8c7d-9e0f1a2b3c4d''],
      logLines = [], projectLoads = 0\<rparr>"

definition twinWorld1 :: World where
  "twinWorld1 =
     \<lparr>files = [(''70_black-angel_tonina_deployment.json'',
                ''json Deployment black-angel/tonina replicas: 1\<newline>''),
               (''70_black-angel_tonina_deployment_0a1b2c3d.json'',
                ''json Deployment black-angel/tonina replicas: 2\<newline>'')],
      headFiles = [(''70_black-angel_tonina_deployment.json'',
                ''json Deployment black-angel/tonina replicas: 1\<newline>''),
               (''70_black-angel_tonina_deployment_0a1b2c3d.json'',
                ''json Deployment black-angel/tonina replicas: 2\<newline>'')],
      commits = [''Update specs for black-angel/tonina\<newline>\<newline>[atomist:generated] [atomist:sync-commit=@atomist/sdm-pack-k8s]\<newline>''],
      pushes = 1, guidDraws = [], logLines = [], projectLoads = 0\<rparr>"

text \<open>
  The state after a first upsert pass, over the empty repository, of the list that holds
  the first of the two resources twice.
\<close>

definition repeatedWorld :: World where
  "repeatedWorld =
     \<lparr>files = [(''70_black-angel_tonina_deployment.json'',
                ''json Deployment black-angel/tonina replicas: 1\<newline>''),
               (''70_black-angel_tonina_deployment_0a1b2c3d.json'',
                ''json Deployment black-angel/tonina replicas: 1\<newline>'')],
      headFiles = [(''70_black-angel_tonina_deployment.json'',
                ''json Deployment black-angel/tonina replicas: 1\<newline>''),
               (''70_black-angel_tonina_deployment_0a1b2c3d.json'',
                ''json Deployment black-angel/tonina replicas: 1\<newline>'')],
      commits = [''Update specs for black-angel/tonina\<newline>\<newline>[atomist:generated] [atomist:sync-commit=@atomist/sdm-pack-k8s]\<newline>''],
      pushes = 1, guidDraws = [], logLines = [], projectLoads = 0\<rparr>"

definition twinWorld2 :: World where
  "twinWorld2 =
     \<lparr>files = [(''70_black-angel_tonina_deployment.json'',
                ''json Deployment black-angel/tonina replicas: 2\<newline>''),
               (''70_black-angel_tonina_deployment_0a1b2c3d.json'',
                ''json Deployment black-angel/tonina replicas: 2\<newline>'')],
      headFiles = [(''70_black-angel_tonina_deployment.json'',
                ''json Deployment black-angel/tonina replicas: 2\<newline>''),
               (''70_black-angel_tonina_deployment_0a1b2c3d.json'',
                ''json Deployment black-angel/tonina replicas: 2\<newline>'')],
      commits = [''Update specs for black-angel/tonina\<newline>\<newline>[atomist:generated] [atomist:sync-commit=@atomist/sdm-pack-k8s]\<newline>'',
                 ''Update specs for black-angel/tonina\<newline>\<newline>[atomist:generated] [atomist:sync-commit=@atomist/sdm-pack-k8s]\<newline>''],
      pushes = 2, guidDraws = [], logLines = [], projectLoads = 0\<rparr>"

text \<open>
  A parser that reads back what the serializers write for the service account and the
  ingress, and the state after a first upsert pass of the two over \<open>toninaWorld\<close>.
\<close>

definition syncTable :: "(string \<times> K8sObject) list" where
  "syncTable =
     [(''kind: ServiceAccount'', toninaServiceAccount),
      (''yaml ServiceAccount black-angel/tonina '', toninaServiceAccount),
      (''json ServiceAccount black-angel/tonina \<newline>'', toninaServiceAccount),
      (''yaml Ingress black-angel/tonina '', toninaIngress),
      (''json Ingress black-angel/tonina \<newline>'', toninaIngress)]"

definition toninaSynced :: World where
  "toninaSynced =
     \<lparr>files = [(''black-angel-tonina-deployment.json'', ''{''),
               (''50_black-angel_tonina_service.json'', ''{}''),
               (''black-angel-tonina-service-acct.yaml'', ''yaml ServiceAccount black-angel/tonina ''),
               (''80_black-angel_tonina_ingress.json'', ''json Ingress black-angel/tonina \<newline>'')],
      headFiles = [(''black-angel-tonina-deployment.json'', ''{''),
               (''50_black-angel_tonina_service.json'', ''{}''),
               (''black-angel-tonina-service-acct.yaml'', ''yaml ServiceAccount black-angel/tonina ''),
               (''80_black-angel_tonina_ingress.json'', ''json Ingress black-angel/tonina \<newline>'')],
      commits = [''Update specs for black-angel/tonina\<newline>\<newline>[atomist:generated] [atomist:sync-commit=@atomist/sdm-pack-k8s]\<newline>''],
      pushes = 1,
      guidDraws = [''0a1b2c3d-4e5f-4a6b-8c7d-9e0f1a2b3c4d''],
      logLines =
        [''Failed to process sync repo spec black-angel-tonina-deployment.json, ignoring: Unexpected token'',
         ''Failed to process sync repo spec 50_black-angel_tonina_service.json, ignoring: Unexpected token''],
      projectLoads = 0\<rparr>"

section \<open>Properties of the spec matcher\<close>

text \<open>
  C3: for every resource spec and every list of (file, parsed spec) pairs, \<open>matchSpec\<close>
  returns the first pair whose spec has the same kind, the same \<open>metadata.name\<close> and the
  same \<open>metadata.namespace\<close> (two undefined namespaces are equal), and returns
  \<open>undefined\<close> when no pair agrees on all three. The \<open>apiVersion\<close> plays no role:
  changing it in the resource and, independently, in every entry of the list, leaves
  the position and the file of the match unchanged.
\<close>

theorem matchSpec_first_match:
  "(matchSpec s fss = Some fs \<longleftrightarrow>
      (\<exists>i < length fss. fss ! i = fs \<and>
         kind s = kind (spec fs) \<and>
         name (metadata s) = name (metadata (spec fs)) \<and>
         namespace (metadata s) = namespace (metadata (spec fs)) \<and>
         (\<forall>j < i. \<not> (kind s = kind (spec (fss ! j)) \<and>
                      name (metadata s) = name (metadata (spec (fss ! j))) \<and>
                      namespace (metadata s) = namespace (metadata (spec (fss ! j)))))))
   \<and> (matchSpec s fss = None \<longleftrightarrow>
      \<not> (\<exists>fs \<in> set fss. kind s = kind (spec fs) \<and>
         name (metadata s) = name (metadata (spec fs)) \<and>
         namespace (metadata s) = namespace (metadata (spec fs))))
   \<and> matchSpec (s\<lparr>apiVersion := v\<rparr>)
        (map (\<lambda>e. e\<lparr>spec := (spec e)\<lparr>apiVersion := w e\<rparr>\<rparr>) fss)
      = map_option (\<lambda>e. e\<lparr>spec := (spec e)\<lparr>apiVersion := w e\<rparr>\<rparr>) (matchSpec s fss)"
proof (intro conjI)
  show "matchSpec s fss = Some fs \<longleftrightarrow>
      (\<exists>i < length fss. fss ! i = fs \<and>
         kind s = kind (spec fs) \<and>
         name (metadata s) = name (metadata (spec fs)) \<and>
         namespace (metadata s) = namespace (metadata (spec fs)) \<and>
         (\<forall>j < i. \<not> (kind s = kind (spec (fss ! j)) \<and>
                      name (metadata s) = name (metadata (spec (fss ! j))) \<and>
                      namespace (metadata s) = namespace (metadata (spec (fss ! j))))))"
    unfolding matchSpec_def find_Some_iff by blast
next
  show "matchSpec s fss = None \<longleftrightarrow>
      \<not> (\<exists>fs \<in> set fss. kind s = kind (spec fs) \<and>
         name (metadata s) = name (metadata (spec fs)) \<and>
         namespace (metadata s) = namespace (metadata (spec fs)))"
    unfolding matchSpec_def find_None_iff by blast
next
  show "matchSpec (s\<lparr>apiVersion := v\<rparr>)
        (map (\<lambda>e. e\<lparr>spec := (spec e)\<lparr>apiVersion := w e\<rparr>\<rparr>) fss)
      = map_option (\<lambda>e. e\<lparr>spec := (spec e)\<lparr>apiVersion := w e\<rparr>\<rparr>) (matchSpec s fss)"
    unfolding matchSpec_def by (induction fss) simp_all
qed

theorem matchSpec_first_match_witness:
  "matchSpec (testObject ''apps/v1'' ''Deployment'' ''lyle'' (Some ''lovett'')) severalFileSpecs
     = Some \<lparr>file' = ''dep.json'',
              spec = testObject ''apps/v1'' ''Deployment'' ''lyle'' (Some ''lovett'')\<rparr>
   \<and> matchSpec (testObject ''apps/v1'' ''Deployment'' ''lyle'' (Some ''alzado'')) severalFileSpecs
     = None
   \<and> matchSpec (testObject ''v2'' ''Deployment'' ''lyle'' (Some ''lovett''))
        (map (\<lambda>e. e\<lparr>spec := (spec e)\<lparr>apiVersion := ''v3''\<rparr>\<rparr>) severalFileSpecs)
     = Some \<lparr>file' = ''dep.json'',
              spec = testObject ''v3'' ''Deployment'' ''lyle'' (Some ''lovett'')\<rparr>"
proof -
  let ?s = "testObject ''apps/v1'' ''Deployment'' ''lyle'' (Some ''lovett'')"
  let ?t = "testObject ''apps/v1'' ''Deployment'' ''lyle'' (Some ''alzado'')"
  let ?d = "\<lparr>file' = ''dep.json'', spec = ?s\<rparr>"
  have first: "\<exists>i < length severalFileSpecs. severalFileSpecs ! i = ?d \<and>
         kind ?s = kind (spec ?d) \<and>
         name (metadata ?s) = name (metadata (spec ?d)) \<and>
         namespace (metadata ?s) = namespace (metadata (spec ?d)) \<and>
         (\<forall>j < i. \<not> (kind ?s = kind (spec (severalFileSpecs ! j)) \<and>
                      name (metadata ?s) = name (metadata (spec (severalFileSpecs ! j))) \<and>
                      namespace (metadata ?s) = namespace (metadata (spec (severalFileSpecs ! j)))))"
    by (rule exI[of _ 2]) (simp add: severalFileSpecs_def testObject_def less_Suc_eq numeral_2_eq_2)
  have none: "\<not> (\<exists>fs \<in> set severalFileSpecs. kind ?t = kind (spec fs) \<and>
         name (metadata ?t) = name (metadata (spec fs)) \<and>
         namespace (metadata ?t) = namespace (metadata (spec fs)))"
    by (simp add: severalFileSpecs_def testObject_def)
  have a: "matchSpec ?s severalFileSpecs = Some ?d"
    using first matchSpec_first_match[of ?s severalFileSpecs ?d] by blast
  have b: "matchSpec ?t severalFileSpecs = None"
    using none matchSpec_first_match[of ?t severalFileSpecs] by blast
  have c: "matchSpec (?s\<lparr>apiVersion := ''v2''\<rparr>)
        (map (\<lambda>e. e\<lparr>spec := (spec e)\<lparr>apiVersion := ''v3''\<rparr>\<rparr>) severalFileSpecs)
      = Some (?d\<lparr>spec := (spec ?d)\<lparr>apiVersion := ''v3''\<rparr>\<rparr>)"
    using a matchSpec_first_match[of ?s severalFileSpecs ?d "''v2''" "\<lambda>e. ''v3''"] by simp
  show ?thesis using a b c by (simp add: testObject_def)
qed

text \<open>
  On the list of the test \<open>should find nothing\<close>, whose last entry differs from the
  resource in its \<open>apiVersion\<close> only, the function returns that entry.
\<close>

lemma matchSpec_differing_apiVersion:
  "matchSpec (testObject ''apps/v1'' ''Deployment'' ''lyle'' (Some ''lovett'')) nearMissFileSpecs
     = Some \<lparr>file' = ''beta-dep.json'',
              spec = testObject ''extensions/v1beta1'' ''Deployment'' ''lyle'' (Some ''lovett'')\<rparr>"
  by (simp add: matchSpec_def nearMissFileSpecs_def testObject_def)

section \<open>Evaluation of the examples, and lemmas on the scan\<close>

lemmas string_eval =
  lowercaseKind_def lowerChar_def isUpperAZ_def isLowerAZ_def upperAZ_def lowerAZ_def

lemmas fixture_defs = testExternals_def testOptions_def tonina_def toninaServiceAccount_def
  toninaService_def toninaIngress_def toninaTable_def toninaWorld_def testObject_def describe_def

lemma ingress_basename:
  "kubernetesSpecFileBasename (testExternals t) toninaIngress = Inr ''80_black-angel_tonina_ingress''"
  by (simp add: kubernetesSpecFileBasename_def specPrefix_def string_eval fixture_defs)

lemma service_basename:
  "kubernetesSpecFileBasename (testExternals t) toninaService = Inr ''50_black-angel_tonina_service''"
  by (simp add: kubernetesSpecFileBasename_def specPrefix_def string_eval fixture_defs)

lemma syncResources_unfold:
  "syncResources ext app resources action opts w =
     (case syncLoop ext action opts (fst (scanSpecs ext (files w))) resources
             (w\<lparr>logLines := logLines w @ snd (scanSpecs ext (files w))\<rparr>) of
        Returns u w' \<Rightarrow> commitAndPush ext action app w'
      | Throws e w' \<Rightarrow> Throws e w'
      | Unfinished \<Rightarrow> Unfinished)"
  by (simp add: syncResources_def split_beta)

lemma scanSpecs_append:
  "scanSpecs ext (xs @ ys) =
     (fst (scanSpecs ext xs) @ fst (scanSpecs ext ys),
      snd (scanSpecs ext xs) @ snd (scanSpecs ext ys))"
  by (induction xs) (auto simp add: split_beta Let_def split: sum.splits)

lemma scanSpecs_specs:
  "fst (scanSpecs ext fs) =
     concat (map (\<lambda>(path, content).
                if k8sSpecGlob ext path
                then (case parseKubernetesSpecFile ext path content of
                        Inr s \<Rightarrow> [\<lparr>file' = path, spec = s\<rparr>]
                      | Inl m \<Rightarrow> [])
                else []) fs)"
  by (induction fs) (auto simp add: split_beta Let_def split: sum.splits)

lemma tonina_glob:
  "k8sSpecGlob (testExternals t) ''black-angel-tonina-deployment.json''"
  "k8sSpecGlob (testExternals t) ''50_black-angel_tonina_service.json''"
  "k8sSpecGlob (testExternals t) ''black-angel-tonina-service-acct.yaml''"
  by (simp_all add: testExternals_def yamlPath_def suffix_to_prefix)

lemma tonina_parse:
  "parseKubernetesSpecFile (testExternals toninaTable) p ''{'' = Inl ''Unexpected token''"
  "parseKubernetesSpecFile (testExternals toninaTable) p ''{}'' = Inl ''Unexpected token''"
  "parseKubernetesSpecFile (testExternals toninaTable) p ''kind: ServiceAccount''
     = Inr toninaServiceAccount"
  by (simp_all add: testExternals_def toninaTable_def)

lemma tonina_scan:
  "scanSpecs (testExternals toninaTable)
     [(''50_black-angel_tonina_service.json'', ''{}''),
      (''black-angel-tonina-service-acct.yaml'', ''kind: ServiceAccount'')]
   = ([\<lparr>file' = ''black-angel-tonina-service-acct.yaml'', spec = toninaServiceAccount\<rparr>],
      [''Failed to process sync repo spec 50_black-angel_tonina_service.json, ignoring: Unexpected token''])"
  by (simp add: tonina_glob tonina_parse)

lemma tonina_scan_all:
  "scanSpecs (testExternals toninaTable) (files toninaWorld)
   = ([\<lparr>file' = ''black-angel-tonina-service-acct.yaml'', spec = toninaServiceAccount\<rparr>],
      [''Failed to process sync repo spec black-angel-tonina-deployment.json, ignoring: Unexpected token'',
       ''Failed to process sync repo spec 50_black-angel_tonina_service.json, ignoring: Unexpected token''])"
  by (simp add: toninaWorld_def tonina_glob tonina_parse)

lemma tonina_delete_loop:
  "syncLoop ext SyncDelete testOptions
     [\<lparr>file' = ''black-angel-tonina-service-acct.yaml'', spec = toninaServiceAccount\<rparr>]
     [toninaServiceAccount]
     (toninaWorld\<lparr>logLines := logLines toninaWorld @
        [''Failed to process sync repo spec black-angel-tonina-deployment.json, ignoring: Unexpected token'',
         ''Failed to process sync repo spec 50_black-angel_tonina_service.json, ignoring: Unexpected token'']\<rparr>)
   = Returns () toninaDeleted"
  by (simp add: matchSpec_def resourceDeleted_def deleteFile_def toninaWorld_def toninaDeleted_def)

section \<open>Properties of an upsert\<close>

lemma uniqueSpecFileLoop_free:
  "getFile w specPath = None \<Longrightarrow>
   uniqueSpecFileLoop specRoot gs specPath w = Returns specPath (w\<lparr>guidDraws := gs\<rparr>)"
  by (cases gs) simp_all

lemma uniqueSpecFileLoop_returns:
  "uniqueSpecFileLoop specRoot gs specPath w = Returns p w' \<Longrightarrow>
   getFile w p = None \<and>
   (p = specPath \<or> (getFile w specPath \<noteq> None \<and> (\<exists>g \<in> set gs. p = guidCandidate specRoot g))) \<and>
   (\<exists>n \<le> length gs. w' = w\<lparr>guidDraws := drop n gs\<rparr>)"
proof (induction gs arbitrary: specPath)
  case Nil
  then show ?case by (auto split: if_splits)
next
  case (Cons g gs)
  show ?case
  proof (cases "getFile w specPath = None")
    case True
    then have "p = specPath" and "w' = w\<lparr>guidDraws := drop 0 (g # gs)\<rparr>"
      using Cons.prems by simp_all
    then show ?thesis using True by blast
  next
    case False
    then have "uniqueSpecFileLoop specRoot gs (guidCandidate specRoot g) w = Returns p w'"
      using Cons.prems by (simp add: guidCandidate_def)
    from Cons.IH[OF this] obtain n where
      free: "getFile w p = None" and
      which: "p = guidCandidate specRoot g \<or> (\<exists>g' \<in> set gs. p = guidCandidate specRoot g')" and
      n: "n \<le> length gs" "w' = w\<lparr>guidDraws := drop n gs\<rparr>"
      by blast
    have "Suc n \<le> length (g # gs)" and "w' = w\<lparr>guidDraws := drop (Suc n) (g # gs)\<rparr>"
      using n by simp_all
    then have "\<exists>m \<le> length (g # gs). w' = w\<lparr>guidDraws := drop m (g # gs)\<rparr>" by blast
    moreover have "\<exists>g' \<in> set (g # gs). p = guidCandidate specRoot g'"
      using which by auto
    ultimately show ?thesis using free False by blast
  qed
qed

lemma uniqueSpecFileLoop_finishes:
  "\<exists>g \<in> set gs. getFile w (guidCandidate specRoot g) = None \<Longrightarrow>
   \<exists>p w'. uniqueSpecFileLoop specRoot gs specPath w = Returns p w'"
proof (induction gs arbitrary: specPath)
  case Nil
  then show ?case by simp
next
  case (Cons g gs)
  show ?case
  proof (cases "getFile w specPath = None")
    case True
    then show ?thesis by simp
  next
    case False
    show ?thesis
    proof (cases "getFile w (guidCandidate specRoot g) = None")
      case True
      then have "uniqueSpecFileLoop specRoot gs (guidCandidate specRoot g) w
                   = Returns (guidCandidate specRoot g) (w\<lparr>guidDraws := gs\<rparr>)"
        by (rule uniqueSpecFileLoop_free)
      then show ?thesis using False by (simp add: guidCandidate_def)
    next
      case nf: False
      then have "\<exists>g \<in> set gs. getFile w (guidCandidate specRoot g) = None"
        using Cons.prems by auto
      from Cons.IH[OF this, of "guidCandidate specRoot g"] show ?thesis
        using False by (simp add: guidCandidate_def)
    qed
  qed
qed

lemma getFile_setContent:
  "getFile (setContent path content w) q =
     (if q = path \<and> getFile w path \<noteq> None then Some content else getFile w q)"
proof -
  have "map_of (map (\<lambda>(q, c). if q = path then (q, content) else (q, c)) fs) q =
          (if q = path \<and> map_of fs path \<noteq> None then Some content else map_of fs q)" for fs
    by (induction fs) auto
  then show ?thesis by (simp add: getFile_def setContent_def)
qed

text \<open>
  C4: for every upserted resource. With a matching file spec, the content of that file
  becomes the serialized resource, in YAML exactly when the path of the file ends in
  \<open>.yml\<close> or \<open>.yaml\<close> and in JSON otherwise, and no other file changes. With no
  match, for a resource that has a basename (a resource with a kind), a new file is
  added, in JSON: at the basename plus \<open>.json\<close> when that path is free; whenever the
  call returns, at a path that did not exist in the project, which is the basename plus
  \<open>.json\<close>, or the basename plus \<open>_\<close>, the first segment of a value of \<open>guid()\<close>
  and \<open>.json\<close> when the first path is taken; and the call does return when one of the
  values of \<open>guid()\<close> supplied gives a free path.
\<close>

theorem resourceUpserted_file:
  "(resourceUpserted ext r w (Some f) opts =
      Returns () (setContent (file' f)
        (if yamlPath (file' f) then safeDump ext (serialized ext r (secretKey opts))
         else stableStringify ext (serialized ext r (secretKey opts)) @ [CHR 0x0A]) w))
   \<and> (getFile w (file' f) \<noteq> None \<longrightarrow>
        (\<exists>w'. resourceUpserted ext r w (Some f) opts = Returns () w' \<and>
          getFile w' (file' f) =
            Some (if suffix ''.yml'' (file' f) \<or> suffix ''.yaml'' (file' f)
                  then safeDump ext (serialized ext r (secretKey opts))
                  else stableStringify ext (serialized ext r (secretKey opts)) @ [CHR 0x0A]) \<and>
          (\<forall>q. q \<noteq> file' f \<longrightarrow> getFile w' q = getFile w q)))
   \<and> (kubernetesSpecFileBasename ext r = Inr specRoot \<and> getFile w (specRoot @ ''.json'') = None \<longrightarrow>
        resourceUpserted ext r w None opts =
          Returns () (w\<lparr>files := files w @ [(specRoot @ ''.json'',
             stableStringify ext (serialized ext r (secretKey opts)) @ [CHR 0x0A])]\<rparr>))
   \<and> (kubernetesSpecFileBasename ext r = Inr specRoot \<and>
        resourceUpserted ext r w None opts = Returns () w' \<longrightarrow>
        (\<exists>path n. getFile w path = None \<and>
           (path = specRoot @ ''.json'' \<or>
            (getFile w (specRoot @ ''.json'') \<noteq> None \<and>
             (\<exists>g \<in> set (guidDraws w).
                path = specRoot @ ''_'' @ takeWhile (\<lambda>c. c \<noteq> CHR ''-'') g @ ''.json''))) \<and>
           n \<le> length (guidDraws w) \<and>
           w' = w\<lparr>files := files w @ [(path,
                    stableStringify ext (serialized ext r (secretKey opts)) @ [CHR 0x0A])],
                  guidDraws := drop n (guidDraws w)\<rparr>))
   \<and> (kubernetesSpecFileBasename ext r = Inr specRoot \<and>
        (\<exists>g \<in> set (guidDraws w).
           getFile w (specRoot @ ''_'' @ takeWhile (\<lambda>c. c \<noteq> CHR ''-'') g @ ''.json'') = None) \<longrightarrow>
        (\<exists>w'. resourceUpserted ext r w None opts = Returns () w'))"
proof (intro conjI impI)
  let ?yaml = "safeDump ext (serialized ext r (secretKey opts))"
  let ?json = "stableStringify ext (serialized ext r (secretKey opts)) @ [CHR 0x0A]"
  have str: "kubernetesSpecStringify ext r fmt (secretKey opts) =
               (if fmt = Yaml then ?yaml else ?json)" for fmt
    by (cases "secretKey opts")
       (simp_all add: kubernetesSpecStringify_def serialized_def Let_def)
  show matched: "resourceUpserted ext r w (Some f) opts =
      Returns () (setContent (file' f) (if yamlPath (file' f) then ?yaml else ?json) w)"
    by (simp add: resourceUpserted_def str)
  {
    assume "getFile w (file' f) \<noteq> None"
    then show "\<exists>w'. resourceUpserted ext r w (Some f) opts = Returns () w' \<and>
          getFile w' (file' f) =
            Some (if suffix ''.yml'' (file' f) \<or> suffix ''.yaml'' (file' f) then ?yaml else ?json) \<and>
          (\<forall>q. q \<noteq> file' f \<longrightarrow> getFile w' q = getFile w q)"
      unfolding matched by (simp add: getFile_setContent yamlPath_def)
  }
  {
    assume a: "kubernetesSpecFileBasename ext r = Inr specRoot \<and> getFile w (specRoot @ ''.json'') = None"
    then have "uniqueSpecFile ext r w = Returns (specRoot @ ''.json'') w"
      by (simp add: uniqueSpecFile_def uniqueSpecFileLoop_free)
    then show "resourceUpserted ext r w None opts =
          Returns () (w\<lparr>files := files w @ [(specRoot @ ''.json'', ?json)]\<rparr>)"
      using a by (simp add: resourceUpserted_def str addFile_def)
  }
  {
    assume a: "kubernetesSpecFileBasename ext r = Inr specRoot \<and>
        resourceUpserted ext r w None opts = Returns () w'"
    then obtain path w1 where
      u: "uniqueSpecFileLoop specRoot (guidDraws w) (specRoot @ ''.json'') w = Returns path w1"
      and w': "w' = addFile path ?json w1"
      by (auto simp add: resourceUpserted_def uniqueSpecFile_def str split: outcome.splits)
    from uniqueSpecFileLoop_returns[OF u] obtain n where
      free: "getFile w path = None" and
      which: "path = specRoot @ ''.json'' \<or>
        (getFile w (specRoot @ ''.json'') \<noteq> None \<and>
         (\<exists>g \<in> set (guidDraws w). path = guidCandidate specRoot g))" and
      n: "n \<le> length (guidDraws w)" "w1 = w\<lparr>guidDraws := drop n (guidDraws w)\<rparr>"
      by blast
    have "getFile w1 path = None" using free n by (simp add: getFile_def)
    then have "w' = w\<lparr>files := files w @ [(path, ?json)], guidDraws := drop n (guidDraws w)\<rparr>"
      using w' n by (simp add: addFile_def)
    then show "\<exists>path n. getFile w path = None \<and>
           (path = specRoot @ ''.json'' \<or>
            (getFile w (specRoot @ ''.json'') \<noteq> None \<and>
             (\<exists>g \<in> set (guidDraws w).
                path = specRoot @ ''_'' @ takeWhile (\<lambda>c. c \<noteq> CHR ''-'') g @ ''.json''))) \<and>
           n \<le> length (guidDraws w) \<and>
           w' = w\<lparr>files := files w @ [(path, ?json)], guidDraws := drop n (guidDraws w)\<rparr>"
      using free which n(1) unfolding guidCandidate_def by blast
  }
  {
    assume a: "kubernetesSpecFileBasename ext r = Inr specRoot \<and>
        (\<exists>g \<in> set (guidDraws w).
           getFile w (specRoot @ ''_'' @ takeWhile (\<lambda>c. c \<noteq> CHR ''-'') g @ ''.json'') = None)"
    then have "\<exists>g \<in> set (guidDraws w). getFile w (guidCandidate specRoot g) = None"
      by (simp add: guidCandidate_def)
    from uniqueSpecFileLoop_finishes[OF this, of "specRoot @ ''.json''"]
    show "\<exists>w'. resourceUpserted ext r w None opts = Returns () w'"
      using a by (auto simp add: resourceUpserted_def uniqueSpecFile_def)
  }
qed

theorem resourceUpserted_file_witness:
  "(\<exists>w'. resourceUpserted (testExternals toninaTable) toninaServiceAccount toninaWorld
            (Some \<lparr>file' = ''black-angel-tonina-service-acct.yaml'', spec = toninaServiceAccount\<rparr>)
            testOptions = Returns () w' \<and>
          getFile w' ''black-angel-tonina-service-acct.yaml''
            = Some ''yaml ServiceAccount black-angel/tonina '')
   \<and> resourceUpserted (testExternals toninaTable) toninaIngress toninaWorld None testOptions
       = Returns () (toninaWorld\<lparr>files := files toninaWorld @
           [(''80_black-angel_tonina_ingress.json'',
             ''json Ingress black-angel/tonina \<newline>'')]\<rparr>)
   \<and> (\<exists>w'. resourceUpserted (testExternals toninaTable) toninaService toninaWorld None
              testOptions = Returns () w' \<and>
          files w' = files toninaWorld @
           [(''50_black-angel_tonina_service_0a1b2c3d.json'',
             ''json Service black-angel/tonina \<newline>'')])"
proof -
  let ?x = "testExternals toninaTable"
  let ?sa = "\<lparr>file' = ''black-angel-tonina-service-acct.yaml'', spec = toninaServiceAccount\<rparr>"
  note main = resourceUpserted_file
  have sa_file: "getFile toninaWorld (file' ?sa) \<noteq> None"
    by (simp add: getFile_def toninaWorld_def)
  from main[of ?x toninaServiceAccount toninaWorld ?sa testOptions,
        THEN conjunct2, THEN conjunct1, rule_format, OF sa_file]
  obtain w1 where
    r1: "resourceUpserted ?x toninaServiceAccount toninaWorld (Some ?sa) testOptions
           = Returns () w1"
    and g1: "getFile w1 (file' ?sa) =
        Some (if suffix ''.yml'' (file' ?sa) \<or> suffix ''.yaml'' (file' ?sa)
              then safeDump ?x (serialized ?x toninaServiceAccount (secretKey testOptions))
              else stableStringify ?x (serialized ?x toninaServiceAccount (secretKey testOptions))
                     @ [CHR 0x0A])"
    by blast
  have y1: "suffix ''.yaml'' (file' ?sa)"
    by (simp add: suffix_to_prefix)
  have d1: "safeDump ?x (serialized ?x toninaServiceAccount (secretKey testOptions))
              = ''yaml ServiceAccount black-angel/tonina ''"
    by (simp add: serialized_def fixture_defs)
  have "getFile w1 ''black-angel-tonina-service-acct.yaml''
            = Some ''yaml ServiceAccount black-angel/tonina ''"
    using g1 y1 d1 by simp
  with r1 have a: "\<exists>w'. resourceUpserted ?x toninaServiceAccount toninaWorld (Some ?sa) testOptions
              = Returns () w' \<and>
          getFile w' ''black-angel-tonina-service-acct.yaml''
            = Some ''yaml ServiceAccount black-angel/tonina ''"
    by blast
  have free: "kubernetesSpecFileBasename ?x toninaIngress = Inr ''80_black-angel_tonina_ingress'' \<and>
      getFile toninaWorld (''80_black-angel_tonina_ingress'' @ ''.json'') = None"
    using ingress_basename by (simp add: getFile_def toninaWorld_def)
  have d2: "stableStringify ?x (serialized ?x toninaIngress (secretKey testOptions)) @ [CHR 0x0A]
              = ''json Ingress black-angel/tonina \<newline>''"
    by (simp add: serialized_def fixture_defs)
  have b: "resourceUpserted ?x toninaIngress toninaWorld None testOptions
       = Returns () (toninaWorld\<lparr>files := files toninaWorld @
           [(''80_black-angel_tonina_ingress.json'',
             ''json Ingress black-angel/tonina \<newline>'')]\<rparr>)"
    using main[of ?x toninaIngress toninaWorld _ testOptions,
        THEN conjunct2, THEN conjunct2, THEN conjunct1, rule_format, OF free]
    unfolding d2 by simp
  have draw: "kubernetesSpecFileBasename ?x toninaService = Inr ''50_black-angel_tonina_service'' \<and>
      (\<exists>g \<in> set (guidDraws toninaWorld).
      getFile toninaWorld (''50_black-angel_tonina_service'' @ ''_''
         @ takeWhile (\<lambda>c. c \<noteq> CHR ''-'') g @ ''.json'') = None)"
    using service_basename by (simp add: getFile_def toninaWorld_def)
  from main[of ?x toninaService toninaWorld _ testOptions,
        THEN conjunct2, THEN conjunct2, THEN conjunct2, THEN conjunct2, rule_format, OF draw]
  obtain w' where r: "resourceUpserted ?x toninaService toninaWorld None testOptions = Returns () w'"
    by blast
  have shape: "kubernetesSpecFileBasename ?x toninaService = Inr ''50_black-angel_tonina_service'' \<and>
      resourceUpserted ?x toninaService toninaWorld None testOptions = Returns () w'"
    using service_basename r by simp
  have taken: "getFile toninaWorld (''50_black-angel_tonina_service'' @ ''.json'') \<noteq> None"
    by (simp add: getFile_def toninaWorld_def)
  from main[of ?x toninaService toninaWorld _ testOptions,
        THEN conjunct2, THEN conjunct2, THEN conjunct2, THEN conjunct1, rule_format, OF shape]
  obtain path n where
    p: "path = ''50_black-angel_tonina_service'' @ ''.json'' \<or>
            (getFile toninaWorld (''50_black-angel_tonina_service'' @ ''.json'') \<noteq> None \<and>
             (\<exists>g \<in> set (guidDraws toninaWorld).
                path = ''50_black-angel_tonina_service'' @ ''_''
                  @ takeWhile (\<lambda>c. c \<noteq> CHR ''-'') g @ ''.json''))"
    and w': "w' = toninaWorld\<lparr>files := files toninaWorld @ [(path,
                    stableStringify ?x (serialized ?x toninaService (secretKey testOptions)) @ [CHR 0x0A])],
                  guidDraws := drop n (guidDraws toninaWorld)\<rparr>"
    and fr: "getFile toninaWorld path = None"
    by blast
  have "path \<noteq> ''50_black-angel_tonina_service'' @ ''.json''"
    using fr taken by auto
  then have "path = ''50_black-angel_tonina_service_0a1b2c3d.json''"
    using p by (simp add: toninaWorld_def)
  moreover have "stableStringify ?x (serialized ?x toninaService (secretKey testOptions))
                   @ [CHR 0x0A] = ''json Service black-angel/tonina \<newline>''"
    by (simp add: serialized_def fixture_defs)
  ultimately have "files w' = files toninaWorld @
           [(''50_black-angel_tonina_service_0a1b2c3d.json'',
             ''json Service black-angel/tonina \<newline>'')]"
    using w' by simp
  with r have c: "\<exists>w'. resourceUpserted ?x toninaService toninaWorld None testOptions
              = Returns () w' \<and>
          files w' = files toninaWorld @
           [(''50_black-angel_tonina_service_0a1b2c3d.json'',
             ''json Service black-angel/tonina \<newline>'')]"
    by blast
  show ?thesis by (intro conjI a b c)
qed

section \<open>Properties of the commit\<close>

text \<open>
  C5: at the end of every sync pass, that is once the loop over the resources has
  returned. If the working copy is clean, \<open>syncResources\<close> returns and commits and
  pushes nothing. Otherwise it commits once, with the message
  \<open>Update specs for namespace/name\<close> (\<open>Delete\<close> exactly when the action is delete), a
  blank line, the generated marker and the commit tag, and then pushes once. If the
  commit throws, or the push does, the message of the error gets the context
  \<open>Failed to commit and push resource changes to sync repo: \<close> in front, is logged,
  and the error is thrown to the caller.
\<close>

theorem syncResources_commit:
  "syncLoop ext action opts (fst (scanSpecs ext (files w))) resources
       (w\<lparr>logLines := logLines w @ snd (scanSpecs ext (files w))\<rparr>) = Returns () w' \<Longrightarrow>
   (isClean w' \<longrightarrow> syncResources ext app resources action opts w = Returns () w')
   \<and> (\<not> isClean w' \<and> commitError ext = None \<and> pushError ext = None \<longrightarrow>
        syncResources ext app resources action opts w =
          Returns () (w'\<lparr>headFiles := files w',
             commits := commits w' @
               [(if action = SyncDelete then ''Delete'' else ''Update'') @ '' specs for ''
                  @ ns app @ ''/'' @ appname app @ [CHR 0x0A, CHR 0x0A]
                  @ ''[atomist:generated] '' @ commitTag ext @ [CHR 0x0A]],
             pushes := Suc (pushes w')\<rparr>))
   \<and> (\<not> isClean w' \<and> commitError ext = Some e \<longrightarrow>
        syncResources ext app resources action opts w =
          Throws (prefixMessage ''Failed to commit and push resource changes to sync repo: '' e)
            (w'\<lparr>logLines := logLines w' @
               [''Failed to commit and push resource changes to sync repo: '' @ message e]\<rparr>))
   \<and> (\<not> isClean w' \<and> commitError ext = None \<and> pushError ext = Some e \<longrightarrow>
        syncResources ext app resources action opts w =
          Throws (prefixMessage ''Failed to commit and push resource changes to sync repo: '' e)
            (w'\<lparr>headFiles := files w',
               commits := commits w' @
                 [(if action = SyncDelete then ''Delete'' else ''Update'') @ '' specs for ''
                    @ ns app @ ''/'' @ appname app @ [CHR 0x0A, CHR 0x0A]
                    @ ''[atomist:generated] '' @ commitTag ext @ [CHR 0x0A]],
               logLines := logLines w' @
                 [''Failed to commit and push resource changes to sync repo: '' @ message e]\<rparr>))"
proof -
  assume loop: "syncLoop ext action opts (fst (scanSpecs ext (files w))) resources
       (w\<lparr>logLines := logLines w @ snd (scanSpecs ext (files w))\<rparr>) = Returns () w'"
  have tail: "syncResources ext app resources action opts w = commitAndPush ext action app w'"
    by (simp add: syncResources_unfold loop)
  have msg: "message (prefixMessage c e) = c @ message e" for c e
    by (cases e) simp_all
  show ?thesis
    unfolding tail
    by (simp add: commitAndPush_def commit_def push_def commitMessage_def appName_def
          rethrowCommitFailure_def Let_def msg)
qed

theorem syncResources_commit_witness:
  "syncResources (testExternals toninaTable) tonina [toninaServiceAccount] SyncDelete testOptions
       toninaWorld
     = Returns () (toninaDeleted\<lparr>headFiles := files toninaDeleted,
         commits := [''Delete specs for black-angel/tonina\<newline>\<newline>[atomist:generated] [atomist:sync-commit=@atomist/sdm-pack-k8s]\<newline>''],
         pushes := 1\<rparr>)
   \<and> syncResources ((testExternals toninaTable)\<lparr>commitError := Some (Error ''remote hung up'')\<rparr>)
         tonina [toninaServiceAccount] SyncDelete testOptions toninaWorld
     = Throws (Error ''Failed to commit and push resource changes to sync repo: remote hung up'')
         (toninaDeleted\<lparr>logLines := logLines toninaDeleted @
            [''Failed to commit and push resource changes to sync repo: remote hung up'']\<rparr>)"
proof -
  let ?x = "testExternals toninaTable"
  let ?y = "?x\<lparr>commitError := Some (Error ''remote hung up'')\<rparr>"
  have scan_y: "scanSpecs ?y fs = scanSpecs ?x fs" for fs
    by (induction fs) (auto simp add: split_beta)
  have dirty: "\<not> isClean toninaDeleted"
    by (simp add: isClean_def toninaDeleted_def)
  have loop_x: "syncLoop ?x SyncDelete testOptions (fst (scanSpecs ?x (files toninaWorld)))
      [toninaServiceAccount]
      (toninaWorld\<lparr>logLines := logLines toninaWorld @ snd (scanSpecs ?x (files toninaWorld))\<rparr>)
      = Returns () toninaDeleted"
    by (simp only: tonina_scan_all fst_conv snd_conv tonina_delete_loop)
  have loop_y: "syncLoop ?y SyncDelete testOptions (fst (scanSpecs ?y (files toninaWorld)))
      [toninaServiceAccount]
      (toninaWorld\<lparr>logLines := logLines toninaWorld @ snd (scanSpecs ?y (files toninaWorld))\<rparr>)
      = Returns () toninaDeleted"
    by (simp only: scan_y tonina_scan_all fst_conv snd_conv tonina_delete_loop)
  have ok: "\<not> isClean toninaDeleted \<and> commitError ?x = None \<and> pushError ?x = None"
    using dirty by (simp add: testExternals_def)
  have ko: "\<not> isClean toninaDeleted \<and> commitError ?y = Some (Error ''remote hung up'')"
    using dirty by simp
  have a: "syncResources ?x tonina [toninaServiceAccount] SyncDelete testOptions toninaWorld
     = Returns () (toninaDeleted\<lparr>headFiles := files toninaDeleted,
         commits := [''Delete specs for black-angel/tonina\<newline>\<newline>[atomist:generated] [atomist:sync-commit=@atomist/sdm-pack-k8s]\<newline>''],
         pushes := 1\<rparr>)"
    using syncResources_commit[OF loop_x, where app = tonina, THEN conjunct2, THEN conjunct1, rule_format, OF ok]
    by (simp add: tonina_def testExternals_def toninaDeleted_def)
  have b: "syncResources ?y tonina [toninaServiceAccount] SyncDelete testOptions toninaWorld
     = Throws (Error ''Failed to commit and push resource changes to sync repo: remote hung up'')
         (toninaDeleted\<lparr>logLines := logLines toninaDeleted @
            [''Failed to commit and push resource changes to sync repo: remote hung up'']\<rparr>)"
    using syncResources_commit[OF loop_y, where e = "Error ''remote hung up''" and app = tonina,
        THEN conjunct2, THEN conjunct2, THEN conjunct1, rule_format, OF ko]
    by simp
  show ?thesis by (intro conjI a b)
qed

section \<open>Properties of the file basename\<close>

lemma not_lower_and_upper: "\<not> (isLowerAZ c \<and> isUpperAZ c)"
  by (auto simp add: isLowerAZ_def isUpperAZ_def lowerAZ_def upperAZ_def)

lemma hyphenateBoundaries_not_lower:
  "\<not> isLowerAZ b \<Longrightarrow> hyphenateBoundaries (b # rest) = b # hyphenateBoundaries rest"
  by (cases rest) simp_all

text \<open>
  A match of \<open>/([a-z])([A-Z])/\<close> ends in an uppercase letter, which starts no other
  match: consuming it loses no boundary.
\<close>

lemma kebabReplace_hyphenateBoundaries: "kebabReplace s = hyphenateBoundaries s"
proof (induction s rule: kebabReplace.induct)
  case (1 a b rest)
  show ?case
  proof (cases "isLowerAZ a \<and> isUpperAZ b")
    case True
    then have "\<not> isLowerAZ b" using not_lower_and_upper[of b] by simp
    then show ?thesis using True 1 by (simp add: hyphenateBoundaries_not_lower)
  next
    case False
    then have "kebabReplace (b # rest) = hyphenateBoundaries (b # rest)" using 1 by blast
    then show ?thesis by (simp add: False)
  qed
qed simp_all

lemma specPrefix_unlisted:
  "k \<notin> fst ` set classPriorities \<Longrightarrow> specPrefix (Some k) = ''90''"
  by (simp add: classPriorities_def specPrefix_def)

lemma specPrefix_listed:
  "(k, p) \<in> set classPriorities \<Longrightarrow> specPrefix (Some k) = twoDigits p"
  unfolding classPriorities_def set_simps insert_iff empty_iff prod.inject
  by (elim disjE conjE FalseE; simp add: specPrefix_def twoDigits_def)

lemma specPrefix_classPriority: "specPrefix (Some k) = twoDigits (classPriority k)"
proof (cases "map_of classPriorities k")
  case None
  then have "k \<notin> fst ` set classPriorities"
    by (simp add: map_of_eq_None_iff)
  then have "specPrefix (Some k) = ''90''"
    by (rule specPrefix_unlisted)
  moreover have "classPriority k = 90"
    using None by (simp add: classPriority_def)
  ultimately show ?thesis by (simp add: twoDigits_def)
next
  case (Some p)
  then have "(k, p) \<in> set classPriorities" by (rule map_of_SomeD)
  then have "specPrefix (Some k) = twoDigits p" by (rule specPrefix_listed)
  moreover have "classPriority k = p"
    using Some by (simp add: classPriority_def)
  ultimately show ?thesis by simp
qed

text \<open>
  C7: for every resource with a kind and a name, \<open>kubernetesSpecFileBasename\<close> returns
  the lowercased string \<open>NN_namespace_name_kebab-kind\<close>, that is what
  \<open>String.prototype.toLowerCase\<close> makes of this string, whatever the letters the
  built-in lowers: the namespace and its separator are there exactly when
  \<open>metadata.namespace\<close> is set (the code tests its truth value, so an empty namespace
  counts as not set), the kind has a hyphen at every boundary between a lowercase and an
  uppercase letter, and \<open>NN\<close> is the two-digit priority of the kind in the table of
  the specification, 90 for every other kind.
\<close>

theorem kubernetesSpecFileBasename_format:
  "kind r = Some k \<Longrightarrow> name (metadata r) = Some n \<Longrightarrow>
   kubernetesSpecFileBasename ext r =
     Inr (toLowerCase ext
            (twoDigits (classPriority k) @ ''_''
             @ (if truthy (namespace (metadata r)) then the (namespace (metadata r)) @ ''_''
                else [])
             @ n @ ''_'' @ hyphenateBoundaries k))"
  by (cases "namespace (metadata r)")
     (simp_all add: kubernetesSpecFileBasename_def specPrefix_classPriority
        kebabReplace_hyphenateBoundaries)

theorem kubernetesSpecFileBasename_format_witness:
  "kubernetesSpecFileBasename (testExternals [])
       (testObject ''v1'' ''ServiceAccount'' ''Tonina'' (Some ''black-angel''))
     = Inr ''20_black-angel_tonina_service-account''
   \<and> kubernetesSpecFileBasename (testExternals [])
       (testObject ''rbac.authorization.k8s.io/v1'' ''ClusterRoleBinding'' ''lyle'' None)
     = Inr ''30_lyle_cluster-role-binding''
   \<and> kubernetesSpecFileBasename (testExternals []) (testObject ''v1'' ''Pod'' ''lyle'' (Some []))
     = Inr ''90_lyle_pod''"
proof -
  let ?a = "testObject ''v1'' ''ServiceAccount'' ''Tonina'' (Some ''black-angel'')"
  let ?b = "testObject ''rbac.authorization.k8s.io/v1'' ''ClusterRoleBinding'' ''lyle'' None"
  let ?c = "testObject ''v1'' ''Pod'' ''lyle'' (Some [])"
  let ?x = "testExternals []"
  have ka: "kind ?a = Some ''ServiceAccount''" and na: "name (metadata ?a) = Some ''Tonina''"
    and kb: "kind ?b = Some ''ClusterRoleBinding''" and nb: "name (metadata ?b) = Some ''lyle''"
    and kc: "kind ?c = Some ''Pod''" and nc: "name (metadata ?c) = Some ''lyle''"
    by (simp_all add: testObject_def)
  have nsa: "namespace (metadata ?a) = Some ''black-angel''"
    and nsb: "namespace (metadata ?b) = None"
    and nsc: "namespace (metadata ?c) = Some []"
    by (simp_all add: testObject_def)
  have low: "toLowerCase ?x = map lowerChar"
    by (simp add: testExternals_def)
  have a: "kubernetesSpecFileBasename ?x ?a = Inr ''20_black-angel_tonina_service-account''"
    unfolding kubernetesSpecFileBasename_format[OF ka na] nsa low
    by (simp add: classPriority_def classPriorities_def twoDigits_def string_eval)
  have b: "kubernetesSpecFileBasename ?x ?b = Inr ''30_lyle_cluster-role-binding''"
    unfolding kubernetesSpecFileBasename_format[OF kb nb] nsb low
    by (simp add: classPriority_def classPriorities_def twoDigits_def string_eval)
  have c: "kubernetesSpecFileBasename ?x ?c = Inr ''90_lyle_pod''"
    unfolding kubernetesSpecFileBasename_format[OF kc nc] nsc low
    by (simp add: classPriority_def classPriorities_def twoDigits_def string_eval)
  show ?thesis using a b c by blast
qed

section \<open>Running the upsert pass twice\<close>

subsection \<open>Lists\<close>

lemma find_append_cases:
  "List.find P (xs @ ys) = (case List.find P xs of None \<Rightarrow> List.find P ys | Some x \<Rightarrow> Some x)"
  by (induction xs) simp_all

lemma find_map_preserved:
  "\<forall>x \<in> set xs. P (u x) = P x \<Longrightarrow> List.find P (map u xs) = map_option u (List.find P xs)"
  by (induction xs) simp_all

lemma find_list_all2:
  "list_all2 R xs ys \<Longrightarrow> (\<And>x y. R x y \<Longrightarrow> P x = P' y \<and> g x = g' y) \<Longrightarrow>
   map_option g (List.find P xs) = map_option g' (List.find P' ys)"
  by (induction xs ys rule: list_all2_induct) auto

lemma json_not_yaml: "suffix ''.json'' p \<Longrightarrow> \<not> yamlPath p"
proof
  assume j: "suffix ''.json'' p" and y: "yamlPath p"
  from j obtain x where "p = x @ ''.json''" by (auto simp add: suffix_def)
  then have "last p = CHR ''n''" by simp
  moreover from y obtain z where "p = z @ ''.yml'' \<or> p = z @ ''.yaml''"
    by (auto simp add: yamlPath_def suffix_def)
  then have "last p = CHR ''l''" by auto
  ultimately show False by simp
qed

subsection \<open>The match, seen from the files\<close>

lemma matchSpec_Cons:
  "matchSpec r (f # fss) =
     (if specIdentity r = specIdentity (spec f) then Some f else matchSpec r fss)"
  by (auto simp add: matchSpec_def specIdentity_def)

lemma matchSpec_scan:
  "map_option file' (matchSpec r (fst (scanSpecs ext fs)))
     = map_option fst (List.find (\<lambda>e. fileIdentity ext e = Some (specIdentity r)) fs)"
proof (induction fs)
  case Nil
  then show ?case by (simp add: matchSpec_def)
next
  case (Cons e fs)
  obtain p c where e: "e = (p, c)" by (cases e)
  show ?case
  proof (cases "k8sSpecGlob ext p")
    case False
    then show ?thesis using Cons by (simp add: e split_beta fileIdentity_def)
  next
    case True
    show ?thesis
    proof (cases "parseKubernetesSpecFile ext p c")
      case (Inl m)
      then show ?thesis using Cons True by (simp add: e split_beta fileIdentity_def)
    next
      case (Inr s)
      then show ?thesis using Cons True
        by (auto simp add: e split_beta fileIdentity_def matchSpec_Cons)
    qed
  qed
qed


subsection \<open>One upsert\<close>

lemma resourceUpserted_matched:
  "resourceUpserted ext r w (Some f) opts
     = Returns () (setContent (file' f) (written ext opts r (file' f)) w)"
  by (simp add: resourceUpserted_def written_def)

lemma uniqueSpecFileLoop_json:
  "uniqueSpecFileLoop specRoot gs (specRoot @ ''.json'') w = Returns p w' \<Longrightarrow> suffix ''.json'' p"
proof -
  assume "uniqueSpecFileLoop specRoot gs (specRoot @ ''.json'') w = Returns p w'"
  from uniqueSpecFileLoop_returns[OF this]
  have "p = specRoot @ ''.json'' \<or> (\<exists>g \<in> set gs. p = guidCandidate specRoot g)" by blast
  then show ?thesis
  proof
    assume "p = specRoot @ ''.json''"
    then show ?thesis by (simp add: suffix_def)
  next
    assume "\<exists>g \<in> set gs. p = guidCandidate specRoot g"
    then obtain g where "p = (specRoot @ ''_'' @ takeWhile (\<lambda>c. c \<noteq> CHR ''-'') g) @ ''.json''"
      by (auto simp add: guidCandidate_def)
    then show ?thesis unfolding suffix_def by blast
  qed
qed

lemma resourceUpserted_unmatched:
  assumes "resourceUpserted ext r w None opts = Returns () w'"
  shows "\<exists>p. p \<notin> fst ` set (files w) \<and> files w' = files w @ [(p, written ext opts r p)]
           \<and> headFiles w' = headFiles w \<and> commits w' = commits w \<and> pushes w' = pushes w"
proof -
  from assms obtain specRoot p w1 where
    u: "uniqueSpecFileLoop specRoot (guidDraws w) (specRoot @ ''.json'') w = Returns p w1"
    and w': "w' = addFile p (kubernetesSpecStringify ext r Json (secretKey opts)) w1"
    by (auto simp add: resourceUpserted_def uniqueSpecFile_def split: sum.splits outcome.splits)
  from uniqueSpecFileLoop_returns[OF u] obtain n where
    free: "getFile w p = None" and w1: "w1 = w\<lparr>guidDraws := drop n (guidDraws w)\<rparr>"
    by blast
  have json: "suffix ''.json'' p" using u by (rule uniqueSpecFileLoop_json)
  then have wr: "written ext opts r p = kubernetesSpecStringify ext r Json (secretKey opts)"
    using json_not_yaml by (simp add: written_def)
  have "getFile w1 p = None" using free w1 by (simp add: getFile_def)
  then have "w' = w1\<lparr>files := files w1 @ [(p, written ext opts r p)]\<rparr>"
    using w' wr by (simp add: addFile_def)
  moreover have "p \<notin> fst ` set (files w)"
    using free by (simp add: getFile_def map_of_eq_None_iff)
  ultimately show ?thesis using w1 by auto
qed

lemma setContent_same:
  "(p, c) \<in> set (files w) \<Longrightarrow> distinct (map fst (files w)) \<Longrightarrow> setContent p c w = w"
proof -
  assume a: "(p, c) \<in> set (files w)" and d: "distinct (map fst (files w))"
  have "map (\<lambda>(q, c'). if q = p then (q, c) else (q, c')) fs = fs"
    if "(p, c) \<in> set fs" "distinct (map fst fs)" for fs
    using that
  proof (induction fs)
    case Nil
    then show ?case by simp
  next
    case (Cons e fs)
    obtain q c' where e: "e = (q, c')" by (cases e)
    have rest: "map (\<lambda>(q, c'). if q = p then (q, c) else (q, c')) fs = fs"
    proof (cases "(p, c) \<in> set fs")
      case True
      then show ?thesis using Cons by simp
    next
      case False
      then have "e = (p, c)" using Cons.prems by simp
      then have "p \<notin> fst ` set fs" using Cons.prems by simp
      then have "\<forall>x \<in> set fs. (\<lambda>(q, c'). if q = p then (q, c) else (q, c')) x = x"
        by (auto simp add: image_iff)
      then show ?thesis by (simp add: map_idI)
    qed
    show ?case
    proof (cases "q = p")
      case True
      then have "(p, c') \<in> set (e # fs)" by (simp add: e)
      then have "c' = c" using Cons.prems
        by (metis eq_key_imp_eq_value)
      then show ?thesis using rest True by (simp add: e)
    next
      case False
      then show ?thesis using rest by (simp add: e)
    qed
  qed
  from this[OF a d] show ?thesis by (simp add: setContent_def)
qed


subsection \<open>The invariant of the first pass\<close>

lemma tracked_initial: "distinct (map fst fs0) \<Longrightarrow> tracked ext opts fs0 [] fs0"
proof -
  assume d: "distinct (map fst fs0)"
  have "fs0 = fs0 @ [] \<and>
      list_all2 (\<lambda>e e0. fst e = fst e0 \<and> fileIdentity ext e = fileIdentity ext e0) fs0 fs0 \<and>
      (\<forall>e \<in> set []. \<exists>r \<in> set []. fileIdentity ext e = Some (specIdentity r))"
    by (simp add: list_all2_same)
  then have "\<exists>old new. fs0 = old @ new \<and>
      list_all2 (\<lambda>e e0. fst e = fst e0 \<and> fileIdentity ext e = fileIdentity ext e0) old fs0 \<and>
      (\<forall>e \<in> set new. \<exists>r \<in> set []. fileIdentity ext e = Some (specIdentity r))"
    by blast
  then show ?thesis using d by (simp add: tracked_def)
qed

lemma fileIdentity_written:
  assumes "\<exists>s. parseKubernetesSpecFile ext p (written ext opts r p) = Inr s
              \<and> specIdentity s = specIdentity r"
    and "k8sSpecGlob ext p"
  shows "fileIdentity ext (p, written ext opts r p) = Some (specIdentity r)"
  using assms by (auto simp add: fileIdentity_def)

lemma fileIdentity_glob: "fileIdentity ext e = Some i \<Longrightarrow> k8sSpecGlob ext (fst e)"
  by (simp add: fileIdentity_def split: if_splits)

lemma tracked_new_file:
  assumes t: "tracked ext opts fs0 seen fs"
    and same: "\<forall>r' \<in> set seen. specIdentity r' = specIdentity r \<longrightarrow>
                 (\<forall>q. written ext opts r' q = written ext opts r q)"
    and unmatched: "List.find (\<lambda>e. fileIdentity ext e = Some (specIdentity r)) fs0 = None"
    and p: "p \<notin> fst ` set fs"
    and ident: "fileIdentity ext (p, written ext opts r p) = Some (specIdentity r)"
  shows "tracked ext opts fs0 (seen @ [r]) (fs @ [(p, written ext opts r p)])"
proof -
  let ?Q = "\<lambda>r e. fileIdentity ext e = Some (specIdentity r)"
  let ?x = "(p, written ext opts r p)"
  from t obtain old new where
    d: "distinct (map fst fs)" and fs: "fs = old @ new" and
    old: "list_all2 (\<lambda>e e0. fst e = fst e0 \<and> fileIdentity ext e = fileIdentity ext e0) old fs0" and
    new: "\<forall>e \<in> set new. \<exists>r' \<in> set seen. fileIdentity ext e = Some (specIdentity r')" and
    found: "\<forall>r' \<in> set seen. \<exists>q. List.find (?Q r') fs = Some (q, written ext opts r' q)"
    unfolding tracked_def by blast
  have d': "distinct (map fst (fs @ [?x]))" using d p by simp
  have new': "\<forall>e \<in> set (new @ [?x]). \<exists>r' \<in> set (seen @ [r]). fileIdentity ext e = Some (specIdentity r')"
    using new ident by auto
  have "map_option fst (List.find (?Q r) old) = map_option fst (List.find (?Q r) fs0)"
    using old by (rule find_list_all2) simp
  then have no_old: "List.find (?Q r) old = None" using unmatched by simp
  have r_found: "\<exists>q. List.find (?Q r) (fs @ [?x]) = Some (q, written ext opts r q)"
  proof (cases "\<exists>r' \<in> set seen. specIdentity r' = specIdentity r")
    case True
    then obtain r' where r': "r' \<in> set seen" and eq: "specIdentity r' = specIdentity r" by blast
    from found r' obtain q where "List.find (?Q r') fs = Some (q, written ext opts r' q)" by blast
    moreover have "written ext opts r' q = written ext opts r q" using same r' eq by blast
    ultimately have "List.find (?Q r) fs = Some (q, written ext opts r q)" by (simp add: eq)
    then show ?thesis by (auto simp add: find_append_cases)
  next
    case False
    have "\<not> ?Q r e" if "e \<in> set new" for e
    proof
      assume q: "?Q r e"
      from new that obtain r' where "r' \<in> set seen" "fileIdentity ext e = Some (specIdentity r')"
        by blast
      then have "\<exists>r' \<in> set seen. specIdentity r' = specIdentity r" using q by auto
      then show False using False by simp
    qed
    then have "List.find (?Q r) new = None" by (auto simp add: find_None_iff)
    then have "List.find (?Q r) (fs @ [?x]) = Some ?x"
      using no_old ident by (simp add: fs find_append_cases)
    then show ?thesis by blast
  qed
  have others: "\<exists>q. List.find (?Q r') (fs @ [?x]) = Some (q, written ext opts r' q)"
    if "r' \<in> set seen" for r'
  proof -
    from found that obtain q where "List.find (?Q r') fs = Some (q, written ext opts r' q)" by blast
    then show ?thesis by (auto simp add: find_append_cases)
  qed
  have all: "\<forall>r' \<in> set (seen @ [r]). \<exists>q.
      List.find (?Q r') (fs @ [?x]) = Some (q, written ext opts r' q)"
    using others r_found by auto
  have split: "fs @ [?x] = old @ (new @ [?x])" by (simp add: fs)
  show ?thesis
    unfolding tracked_def using d' split old new' all by blast
qed

lemma tracked_overwrite:
  assumes t: "tracked ext opts fs0 seen fs"
    and same: "\<forall>r' \<in> set seen. specIdentity r' = specIdentity r \<longrightarrow>
                 (\<forall>q. written ext opts r' q = written ext opts r q)"
    and matched: "List.find (\<lambda>e. fileIdentity ext e = Some (specIdentity r)) fs0 = Some (p, c0)"
    and ident: "fileIdentity ext (p, written ext opts r p) = Some (specIdentity r)"
  shows "tracked ext opts fs0 (seen @ [r])
           (map (\<lambda>(q, c). if q = p then (q, written ext opts r p) else (q, c)) fs)"
proof -
  let ?Q = "\<lambda>r e. fileIdentity ext e = Some (specIdentity r)"
  let ?u = "\<lambda>(q, c). if q = p then (q, written ext opts r p) else (q, c)"
  from t obtain old new where
    d: "distinct (map fst fs)" and fs: "fs = old @ new" and
    old: "list_all2 (\<lambda>e e0. fst e = fst e0 \<and> fileIdentity ext e = fileIdentity ext e0) old fs0" and
    new: "\<forall>e \<in> set new. \<exists>r' \<in> set seen. fileIdentity ext e = Some (specIdentity r')" and
    found: "\<forall>r' \<in> set seen. \<exists>q. List.find (?Q r') fs = Some (q, written ext opts r' q)"
    unfolding tracked_def by blast
  have "map_option fst (List.find (?Q r) old) = map_option fst (List.find (?Q r) fs0)"
    using old by (rule find_list_all2) simp
  then obtain c where in_old: "List.find (?Q r) old = Some (p, c)"
    using matched by auto
  then have in_fs: "List.find (?Q r) fs = Some (p, c)"
    by (simp add: fs find_append_cases)
  then have at_p: "(p, c) \<in> set fs" "?Q r (p, c)"
    by (auto simp add: find_Some_iff)
  have only: "e = (p, c)" if "e \<in> set fs" "fst e = p" for e
    using that at_p(1) d by (metis eq_key_imp_eq_value prod.collapse)
  have fst_u: "fst (?u e) = fst e" for e by (cases e) simp
  have id_u: "fileIdentity ext (?u e) = fileIdentity ext e" if "e \<in> set fs" for e
  proof (cases "fst e = p")
    case True
    then have "e = (p, c)" using that only by blast
    then show ?thesis using at_p(2) ident by simp
  next
    case False
    then show ?thesis by (cases e) simp
  qed
  have d': "distinct (map fst (map ?u fs))"
    using d by (simp add: comp_def fst_u)
  have old': "list_all2 (\<lambda>e e0. fst e = fst e0 \<and> fileIdentity ext e = fileIdentity ext e0)
                (map ?u old) fs0"
  proof -
    have "list_all2 (\<lambda>e e0. fst (?u e) = fst e0 \<and> fileIdentity ext (?u e) = fileIdentity ext e0) old fs0"
      using old
    proof (rule list.rel_mono_strong)
      fix e e0
      show "e \<in> set old \<Longrightarrow> e0 \<in> set fs0 \<Longrightarrow> fst e = fst e0 \<and> fileIdentity ext e = fileIdentity ext e0
        \<Longrightarrow> fst (?u e) = fst e0 \<and> fileIdentity ext (?u e) = fileIdentity ext e0"
        using id_u[of e] fst_u[of e] by (simp add: fs)
    qed
    then show ?thesis by (simp add: list_all2_map1)
  qed
  have new': "\<forall>e \<in> set (map ?u new). \<exists>r' \<in> set (seen @ [r]). fileIdentity ext e = Some (specIdentity r')"
  proof
    fix e assume "e \<in> set (map ?u new)"
    then obtain e1 where e1: "e1 \<in> set new" "e = ?u e1" by auto
    then have "fileIdentity ext e = fileIdentity ext e1" using id_u[of e1] by (simp add: fs)
    then show "\<exists>r' \<in> set (seen @ [r]). fileIdentity ext e = Some (specIdentity r')"
      using new e1(1) by auto
  qed
  have find_u: "List.find (?Q r') (map ?u fs) = map_option ?u (List.find (?Q r') fs)" for r'
    by (rule find_map_preserved) (simp add: id_u)
  have r_found: "List.find (?Q r) (map ?u fs) = Some (p, written ext opts r p)"
    by (simp add: find_u in_fs)
  have others: "\<exists>q. List.find (?Q r') (map ?u fs) = Some (q, written ext opts r' q)"
    if "r' \<in> set seen" for r'
  proof -
    from found that obtain q where q: "List.find (?Q r') fs = Some (q, written ext opts r' q)"
      by blast
    then have m: "(q, written ext opts r' q) \<in> set fs" "?Q r' (q, written ext opts r' q)"
      by (auto simp add: find_Some_iff)
    show ?thesis
    proof (cases "q = p")
      case True
      then have eq: "(q, written ext opts r' q) = (p, c)" using only m(1) by simp
      have "fileIdentity ext (p, c) = Some (specIdentity r')" using m(2) unfolding eq .
      then have "specIdentity r' = specIdentity r" using at_p(2) by simp
      then have "written ext opts r' p = written ext opts r p" using same that by blast
      then have "List.find (?Q r') (map ?u fs) = Some (p, written ext opts r' p)"
        using True by (simp add: find_u q)
      then show ?thesis by blast
    next
      case False
      then show ?thesis by (simp add: find_u q)
    qed
  qed
  have all: "\<forall>r' \<in> set (seen @ [r]). \<exists>q.
      List.find (?Q r') (map ?u fs) = Some (q, written ext opts r' q)"
    using others r_found by auto
  have split: "map ?u fs = map ?u old @ map ?u new" by (simp add: fs)
  show ?thesis
    unfolding tracked_def using d' split old' new' all by blast
qed


subsection \<open>The first pass\<close>

lemma setContent_paths: "fst ` set (files (setContent p x w)) = fst ` set (files w)"
proof -
  have "map fst (map (\<lambda>(q, c). if q = p then (q, x) else (q, c)) fs) = map fst fs" for fs
    by (induction fs) auto
  then have "set (map fst (files (setContent p x w))) = set (map fst (files w))"
    by (simp add: setContent_def)
  then show ?thesis by simp
qed

lemma setContent_frame:
  "headFiles (setContent p x w) = headFiles w" "commits (setContent p x w) = commits w"
  "pushes (setContent p x w) = pushes w"
  by (simp_all add: setContent_def)

lemma upsert_step:
  assumes step: "resourceUpserted ext r w (matchSpec r (fst (scanSpecs ext fs0))) opts = Returns () w'"
  shows "headFiles w' = headFiles w \<and> commits w' = commits w \<and> pushes w' = pushes w
         \<and> fst ` set (files w) \<subseteq> fst ` set (files w')"
proof (cases "matchSpec r (fst (scanSpecs ext fs0))")
  case None
  from resourceUpserted_unmatched[OF step[unfolded None]] show ?thesis by auto
next
  case (Some f)
  then have "w' = setContent (file' f) (written ext opts r (file' f)) w"
    using step by (simp add: resourceUpserted_matched)
  then show ?thesis by (simp add: setContent_paths setContent_frame)
qed

text \<open>
  What one upsert of the pass does to the files: the resource has a file in the scan and
  the upsert overwrites the file at this path, or it has none and the upsert adds a file
  at a path that was free.
\<close>

lemma upsert_step_files:
  assumes step: "resourceUpserted ext r w (matchSpec r (fst (scanSpecs ext fs0))) opts = Returns () w'"
  shows "(\<exists>p c0. List.find (\<lambda>e. fileIdentity ext e = Some (specIdentity r)) fs0 = Some (p, c0)
            \<and> files w' = map (\<lambda>(q, c). if q = p then (q, written ext opts r p) else (q, c)) (files w))
         \<or> (List.find (\<lambda>e. fileIdentity ext e = Some (specIdentity r)) fs0 = None
            \<and> (\<exists>p. p \<notin> fst ` set (files w) \<and> files w' = files w @ [(p, written ext opts r p)]))"
proof (cases "matchSpec r (fst (scanSpecs ext fs0))")
  case None
  then have unmatched: "List.find (\<lambda>e. fileIdentity ext e = Some (specIdentity r)) fs0 = None"
    using matchSpec_scan[of r ext fs0] by simp
  from resourceUpserted_unmatched[OF step[unfolded None]] obtain p where
    "p \<notin> fst ` set (files w)" "files w' = files w @ [(p, written ext opts r p)]"
    by blast
  then show ?thesis using unmatched by blast
next
  case (Some f)
  then have "map_option fst (List.find (\<lambda>e. fileIdentity ext e = Some (specIdentity r)) fs0)
      = Some (file' f)"
    using matchSpec_scan[of r ext fs0] by simp
  then obtain e0 where e0: "List.find (\<lambda>e. fileIdentity ext e = Some (specIdentity r)) fs0 = Some e0"
    and path: "fst e0 = file' f"
    by auto
  then have matched: "List.find (\<lambda>e. fileIdentity ext e = Some (specIdentity r)) fs0
      = Some (file' f, snd e0)"
    by (metis prod.collapse)
  have "files w' = map (\<lambda>(q, c). if q = file' f then (q, written ext opts r (file' f)) else (q, c))
                     (files w)"
    using step unfolding Some resourceUpserted_matched by (auto simp add: setContent_def)
  then show ?thesis using matched by blast
qed

lemma syncLoop_upsert_Cons:
  "syncLoop ext SyncUpsert opts specs (r # rs) w = Returns () wn \<Longrightarrow>
   \<exists>w'. resourceUpserted ext r w (matchSpec r specs) opts = Returns () w'
        \<and> syncLoop ext SyncUpsert opts specs rs w' = Returns () wn"
  by (cases "resourceUpserted ext r w (matchSpec r specs) opts") simp_all

lemma syncLoop_upsert_paths:
  "syncLoop ext SyncUpsert opts (fst (scanSpecs ext fs0)) rs v = Returns () vn \<Longrightarrow>
   fst ` set (files v) \<subseteq> fst ` set (files vn)"
proof (induction rs arbitrary: v)
  case Nil
  then show ?case by simp
next
  case (Cons x rs)
  from syncLoop_upsert_Cons[OF Cons.prems] obtain v' where
    s: "resourceUpserted ext x v (matchSpec x (fst (scanSpecs ext fs0))) opts = Returns () v'"
    and l: "syncLoop ext SyncUpsert opts (fst (scanSpecs ext fs0)) rs v' = Returns () vn"
    by blast
  have "fst ` set (files v) \<subseteq> fst ` set (files v')"
    using upsert_step[OF s] by simp
  moreover have "fst ` set (files v') \<subseteq> fst ` set (files vn)"
    using Cons.IH[OF l] .
  ultimately show ?case by (rule subset_trans)
qed

text \<open>
  A file stays as it is to the end of the pass when every resource still to come that the
  scan matches to its path writes the content it has.
\<close>

lemma syncLoop_upsert_keeps:
  "syncLoop ext SyncUpsert opts (fst (scanSpecs ext fs0)) todo w = Returns () wn \<Longrightarrow>
   (p, c) \<in> set (files w) \<Longrightarrow>
   \<forall>r \<in> set todo. \<forall>c0.
      List.find (\<lambda>e. fileIdentity ext e = Some (specIdentity r)) fs0 = Some (p, c0)
      \<longrightarrow> written ext opts r p = c \<Longrightarrow>
   (p, c) \<in> set (files wn)"
proof (induction todo arbitrary: w)
  case Nil
  then show ?case by simp
next
  case (Cons r todo)
  note loop = Cons.prems(1) and mem = Cons.prems(2) and keep = Cons.prems(3)
  from syncLoop_upsert_Cons[OF loop] obtain w' where
    step: "resourceUpserted ext r w (matchSpec r (fst (scanSpecs ext fs0))) opts = Returns () w'"
    and rest: "syncLoop ext SyncUpsert opts (fst (scanSpecs ext fs0)) todo w' = Returns () wn"
    by blast
  have mem': "(p, c) \<in> set (files w')"
    using upsert_step_files[OF step]
  proof (elim disjE exE conjE)
    fix p2 c0
    assume m: "List.find (\<lambda>e. fileIdentity ext e = Some (specIdentity r)) fs0 = Some (p2, c0)"
      and fs: "files w' = map (\<lambda>(q, c). if q = p2 then (q, written ext opts r p2) else (q, c)) (files w)"
    have "(p, c) = (\<lambda>(q, c). if q = p2 then (q, written ext opts r p2) else (q, c)) (p, c)"
    proof (cases "p2 = p")
      case True
      have "r \<in> set (r # todo)" by simp
      with keep m True have "written ext opts r p = c" by blast
      then show ?thesis using True by simp
    next
      case False
      then show ?thesis by simp
    qed
    then have "(p, c) \<in> (\<lambda>(q, c). if q = p2 then (q, written ext opts r p2) else (q, c)) ` set (files w)"
      using mem by (rule image_eqI)
    then show ?thesis unfolding fs set_map .
  next
    fix p2
    assume "files w' = files w @ [(p2, written ext opts r p2)]"
    then show ?thesis using mem by simp
  qed
  have keep': "\<forall>r \<in> set todo. \<forall>c0.
      List.find (\<lambda>e. fileIdentity ext e = Some (specIdentity r)) fs0 = Some (p, c0)
      \<longrightarrow> written ext opts r p = c"
    using keep by simp
  from Cons.IH[OF rest mem' keep'] show ?case .
qed

text \<open>
  The invariant holds after the loop of a first pass, for resources of which any two with
  one identity are written alike, and a parser that reads back, from each file the pass
  leaves, the resource it holds.
\<close>

lemma tracked_loop:
  "syncLoop ext SyncUpsert opts (fst (scanSpecs ext fs0)) todo w = Returns () wn \<Longrightarrow>
   tracked ext opts fs0 seen (files w) \<Longrightarrow>
   \<forall>r \<in> set (seen @ todo). \<forall>r' \<in> set (seen @ todo). specIdentity r = specIdentity r' \<longrightarrow>
      (\<forall>q. written ext opts r q = written ext opts r' q) \<Longrightarrow>
   \<forall>r \<in> set todo. \<forall>p. (p, written ext opts r p) \<in> set (files wn) \<longrightarrow> k8sSpecGlob ext p \<longrightarrow>
      fileIdentity ext (p, written ext opts r p) = Some (specIdentity r) \<Longrightarrow>
   fst ` set fs0 \<subseteq> fst ` set (files w) \<Longrightarrow>
   \<forall>p \<in> fst ` set (files wn). p \<notin> fst ` set fs0 \<longrightarrow> k8sSpecGlob ext p \<Longrightarrow>
   distinct (map fst fs0) \<Longrightarrow>
   tracked ext opts fs0 (seen @ todo) (files wn)
   \<and> headFiles wn = headFiles w \<and> commits wn = commits w \<and> pushes wn = pushes w"
proof (induction todo arbitrary: seen w)
  case Nil
  then show ?case by simp
next
  case (Cons r todo)
  let ?Q = "\<lambda>r e. fileIdentity ext e = Some (specIdentity r)"
  note loop = Cons.prems(1) and t = Cons.prems(2) and alike = Cons.prems(3)
    and rt = Cons.prems(4) and sub = Cons.prems(5) and glob = Cons.prems(6) and d0 = Cons.prems(7)
  from syncLoop_upsert_Cons[OF loop] obtain w' where
    step: "resourceUpserted ext r w (matchSpec r (fst (scanSpecs ext fs0))) opts = Returns () w'"
    and rest: "syncLoop ext SyncUpsert opts (fst (scanSpecs ext fs0)) todo w' = Returns () wn"
    by blast
  from upsert_step[OF step] have
    frame1: "headFiles w' = headFiles w" "commits w' = commits w" "pushes w' = pushes w"
    and grow: "fst ` set (files w) \<subseteq> fst ` set (files w')"
    by simp_all
  have sub0: "fst ` set fs0 \<subseteq> fst ` set (files w')"
    using sub grow by (rule subset_trans)
  have lists: "(seen @ [r]) @ todo = seen @ r # todo" by simp
  have alike2: "\<forall>x \<in> set ((seen @ [r]) @ todo). \<forall>y \<in> set ((seen @ [r]) @ todo).
      specIdentity x = specIdentity y \<longrightarrow> (\<forall>q. written ext opts x q = written ext opts y q)"
    unfolding lists by (rule alike)
  have in_r: "r \<in> set (seen @ r # todo)" by simp
  have in_seen: "x \<in> set (seen @ r # todo)" if "x \<in> set seen" for x using that by simp
  have in_todo: "x \<in> set (seen @ r # todo)" if "x \<in> set todo" for x using that by simp
  have in_todo': "x \<in> set (r # todo)" if "x \<in> set todo" for x using that by simp
  have rt2: "\<forall>r \<in> set todo. \<forall>p. (p, written ext opts r p) \<in> set (files wn) \<longrightarrow> k8sSpecGlob ext p \<longrightarrow>
      fileIdentity ext (p, written ext opts r p) = Some (specIdentity r)"
  proof (intro ballI allI impI)
    fix x p
    assume "x \<in> set todo" "(p, written ext opts x p) \<in> set (files wn)" "k8sSpecGlob ext p"
    then show "fileIdentity ext (p, written ext opts x p) = Some (specIdentity x)"
      using rt[rule_format, OF in_todo'] by blast
  qed
  have rt1: "(p, written ext opts r p) \<in> set (files wn) \<Longrightarrow> k8sSpecGlob ext p \<Longrightarrow>
      fileIdentity ext (p, written ext opts r p) = Some (specIdentity r)" for p
  proof -
    have "r \<in> set (r # todo)" by simp
    from rt[rule_format, OF this] show "(p, written ext opts r p) \<in> set (files wn) \<Longrightarrow>
      k8sSpecGlob ext p \<Longrightarrow> fileIdentity ext (p, written ext opts r p) = Some (specIdentity r)"
      by blast
  qed
  have same: "\<forall>r' \<in> set seen. specIdentity r' = specIdentity r \<longrightarrow>
                 (\<forall>q. written ext opts r' q = written ext opts r q)"
  proof (intro ballI allI impI)
    fix x q
    assume x: "x \<in> set seen" and eq: "specIdentity x = specIdentity r"
    from alike[rule_format, OF in_seen[OF x] in_r eq]
    show "written ext opts x q = written ext opts r q" .
  qed
  have later: "written ext opts r2 q = written ext opts r q"
    if "r2 \<in> set todo" "specIdentity r2 = specIdentity r" for r2 q
    using alike[rule_format, OF in_todo[OF that(1)] in_r that(2)] .
  have mono: "fst ` set (files w') \<subseteq> fst ` set (files wn)"
    using rest by (rule syncLoop_upsert_paths)
  have t': "tracked ext opts fs0 (seen @ [r]) (files w')"
    using upsert_step_files[OF step]
  proof (elim disjE exE conjE)
    fix p c0
    assume m: "List.find (?Q r) fs0 = Some (p, c0)"
      and fs: "files w' = map (\<lambda>(q, c). if q = p then (q, written ext opts r p) else (q, c)) (files w)"
    from m have in0: "(p, c0) \<in> set fs0" and q0: "?Q r (p, c0)"
      by (auto simp add: find_Some_iff)
    have "p \<in> fst ` set fs0" using in0 by (metis fst_conv imageI)
    then have "p \<in> fst ` set (files w)" using sub by blast
    then obtain c where "(p, c) \<in> set (files w)" by auto
    then have "(\<lambda>(q, c). if q = p then (q, written ext opts r p) else (q, c)) (p, c) \<in> set (files w')"
      unfolding fs set_map by (rule imageI)
    then have here: "(p, written ext opts r p) \<in> set (files w')" by simp
    have keep: "\<forall>r2 \<in> set todo. \<forall>c1. List.find (?Q r2) fs0 = Some (p, c1)
        \<longrightarrow> written ext opts r2 p = written ext opts r p"
    proof (intro ballI allI impI)
      fix r2 c1
      assume r2: "r2 \<in> set todo" and f2: "List.find (?Q r2) fs0 = Some (p, c1)"
      then have in1: "(p, c1) \<in> set fs0" and q1: "?Q r2 (p, c1)"
        by (auto simp add: find_Some_iff)
      have "c1 = c0" using in0 in1 d0 by (metis eq_key_imp_eq_value)
      then have "specIdentity r2 = specIdentity r" using q0 q1 by simp
      with r2 show "written ext opts r2 p = written ext opts r p" by (rule later)
    qed
    have "(p, written ext opts r p) \<in> set (files wn)"
      using rest here keep by (rule syncLoop_upsert_keeps)
    moreover have "k8sSpecGlob ext p" using fileIdentity_glob[OF q0] by simp
    ultimately have ident: "fileIdentity ext (p, written ext opts r p) = Some (specIdentity r)"
      by (rule rt1)
    from tracked_overwrite[OF t same m ident] show ?thesis by (simp add: fs)
  next
    fix p
    assume unmatched: "List.find (?Q r) fs0 = None"
      and p: "p \<notin> fst ` set (files w)"
      and fs: "files w' = files w @ [(p, written ext opts r p)]"
    have here: "(p, written ext opts r p) \<in> set (files w')" by (simp add: fs)
    have p0: "p \<notin> fst ` set fs0" using p sub by blast
    have keep: "\<forall>r2 \<in> set todo. \<forall>c1. List.find (?Q r2) fs0 = Some (p, c1)
        \<longrightarrow> written ext opts r2 p = written ext opts r p"
    proof (intro ballI allI impI)
      fix r2 c1
      assume "List.find (?Q r2) fs0 = Some (p, c1)"
      then have "(p, c1) \<in> set fs0" by (auto simp add: find_Some_iff)
      then have "p \<in> fst ` set fs0" by (metis fst_conv imageI)
      then show "written ext opts r2 p = written ext opts r p" using p0 by simp
    qed
    have last: "(p, written ext opts r p) \<in> set (files wn)"
      using rest here keep by (rule syncLoop_upsert_keeps)
    then have "p \<in> fst ` set (files wn)" by (metis fst_conv imageI)
    then have "k8sSpecGlob ext p" using glob p0 by blast
    with last have ident: "fileIdentity ext (p, written ext opts r p) = Some (specIdentity r)"
      by (rule rt1)
    from tracked_new_file[OF t same unmatched p ident] show ?thesis by (simp add: fs)
  qed
  from Cons.IH[OF rest t' alike2 rt2 sub0 glob d0] have
    "tracked ext opts fs0 ((seen @ [r]) @ todo) (files wn)"
    and "headFiles wn = headFiles w'" "commits wn = commits w'" "pushes wn = pushes w'"
    by simp_all
  then show ?case using frame1 by simp
qed


subsection \<open>The second pass\<close>

lemma tracked_matched:
  assumes t: "tracked ext opts fs0 seen (files w)" and r: "r \<in> set seen"
  shows "\<exists>f. matchSpec r (fst (scanSpecs ext (files w))) = Some f
           \<and> (file' f, written ext opts r (file' f)) \<in> set (files w)"
proof -
  from t r obtain p where
    f: "List.find (\<lambda>e. fileIdentity ext e = Some (specIdentity r)) (files w)
          = Some (p, written ext opts r p)"
    unfolding tracked_def by blast
  then have mem: "(p, written ext opts r p) \<in> set (files w)"
    by (auto simp add: find_Some_iff)
  have "map_option file' (matchSpec r (fst (scanSpecs ext (files w)))) = Some p"
    using matchSpec_scan[of r ext "files w"] f by simp
  then obtain f' where "matchSpec r (fst (scanSpecs ext (files w))) = Some f'" "file' f' = p"
    by auto
  then show ?thesis using mem by auto
qed

lemma second_loop:
  "tracked ext opts fs0 seen (files w) \<Longrightarrow> set rs \<subseteq> set seen \<Longrightarrow>
   syncLoop ext SyncUpsert opts (fst (scanSpecs ext (files w))) rs w = Returns () w"
proof (induction rs)
  case Nil
  then show ?case by simp
next
  case (Cons r rs)
  from Cons.prems have d: "distinct (map fst (files w))" and r: "r \<in> set seen"
    by (auto simp add: tracked_def)
  from tracked_matched[OF Cons.prems(1) r] obtain f where
    m: "matchSpec r (fst (scanSpecs ext (files w))) = Some f"
    and mem: "(file' f, written ext opts r (file' f)) \<in> set (files w)"
    by blast
  have "resourceUpserted ext r w (Some f) opts = Returns () w"
    unfolding resourceUpserted_matched using setContent_same[OF mem d] by simp
  then show ?case using Cons m by simp
qed


lemma commitAndPush_clean:
  "commitAndPush ext action app w = Returns () w' \<Longrightarrow> isClean w' \<and> files w' = files w"
  by (auto simp add: commitAndPush_def commit_def push_def isClean_def rethrowCommitFailure_def Let_def
        split: if_splits option.splits)

lemma syncResources_returns:
  "syncResources ext app resources action opts w = Returns () w1 \<Longrightarrow>
   \<exists>wl. syncLoop ext action opts (fst (scanSpecs ext (files w))) resources
           (w\<lparr>logLines := logLines w @ snd (scanSpecs ext (files w))\<rparr>) = Returns () wl
        \<and> commitAndPush ext action app wl = Returns () w1"
  unfolding syncResources_unfold
  by (cases "syncLoop ext action opts (fst (scanSpecs ext (files w))) resources
           (w\<lparr>logLines := logLines w @ snd (scanSpecs ext (files w))\<rparr>)") simp_all

text \<open>
  C8, as amended: take a first upsert pass that returns, over a project whose paths are
  distinct, for a list of resources of which any two with the same kind, name and
  namespace have the same serialized content, and let the scan of the result see the
  files the pass wrote: the glob accepts the paths the pass added, and the parser reads
  back, from a file of the result that holds a resource of the list as the pass writes
  it there, a spec with the kind, name and namespace of this resource. Then after the
  first pass every resource of the list has a matched file, which holds its serialized
  content (YAML at a path in \<open>.yml\<close> or \<open>.yaml\<close>, else JSON), and the working copy is
  clean; and the second pass, with the same application and resources, returns and
  leaves the files, the last commit, the list of commits and the number of pushes as they
  were: no second commit and no second push (only the warnings of the scan are logged
  again).
\<close>

theorem sync_twice_clean:
  assumes alike: "\<forall>r \<in> set resources. \<forall>r' \<in> set resources.
        specIdentity r = specIdentity r' \<longrightarrow>
        (\<forall>fmt. kubernetesSpecStringify ext r fmt (secretKey opts)
                 = kubernetesSpecStringify ext r' fmt (secretKey opts))"
    and paths: "distinct (map fst (files w))"
    and first: "syncResources ext app resources SyncUpsert opts w = Returns () w1"
    and glob: "\<forall>p \<in> fst ` set (files w1). p \<notin> fst ` set (files w) \<longrightarrow> k8sSpecGlob ext p"
    and reads: "\<forall>r \<in> set resources. \<forall>p.
        (p, kubernetesSpecStringify ext r (if yamlPath p then Yaml else Json) (secretKey opts))
          \<in> set (files w1) \<and> k8sSpecGlob ext p \<longrightarrow>
        (\<exists>s. parseKubernetesSpecFile ext p
               (kubernetesSpecStringify ext r (if yamlPath p then Yaml else Json) (secretKey opts))
                = Inr s
            \<and> specIdentity s = specIdentity r)"
  shows "(\<forall>r \<in> set resources. \<exists>f.
            matchSpec r (fst (scanSpecs ext (files w1))) = Some f
            \<and> getFile w1 (file' f)
                = Some (kubernetesSpecStringify ext r (if yamlPath (file' f) then Yaml else Json)
                          (secretKey opts)))
         \<and> isClean w1
         \<and> syncResources ext app resources SyncUpsert opts w1
             = Returns () (w1\<lparr>logLines := logLines w1 @ snd (scanSpecs ext (files w1))\<rparr>)"
proof -
  let ?w = "w\<lparr>logLines := logLines w @ snd (scanSpecs ext (files w))\<rparr>"
  let ?w1 = "w1\<lparr>logLines := logLines w1 @ snd (scanSpecs ext (files w1))\<rparr>"
  from syncResources_returns[OF first] obtain wl where
    loop: "syncLoop ext SyncUpsert opts (fst (scanSpecs ext (files w))) resources ?w = Returns () wl"
    and tail: "commitAndPush ext SyncUpsert app wl = Returns () w1"
    by blast
  from commitAndPush_clean[OF tail] have clean: "isClean w1" and same: "files w1 = files wl"
    by simp_all
  have t0: "tracked ext opts (files w) [] (files ?w)"
    using tracked_initial[OF paths] by simp
  have alike0: "\<forall>r \<in> set ([] @ resources). \<forall>r' \<in> set ([] @ resources).
      specIdentity r = specIdentity r' \<longrightarrow> (\<forall>q. written ext opts r q = written ext opts r' q)"
    unfolding written_def append_Nil
  proof (intro ballI allI impI)
    fix x y q
    assume "x \<in> set resources" "y \<in> set resources" "specIdentity x = specIdentity y"
    from alike[rule_format, OF this]
    show "kubernetesSpecStringify ext x (if yamlPath q then Yaml else Json) (secretKey opts)
          = kubernetesSpecStringify ext y (if yamlPath q then Yaml else Json) (secretKey opts)" .
  qed
  have rt: "\<forall>r \<in> set resources. \<forall>p. (p, written ext opts r p) \<in> set (files wl) \<longrightarrow>
      k8sSpecGlob ext p \<longrightarrow> fileIdentity ext (p, written ext opts r p) = Some (specIdentity r)"
  proof (intro ballI allI impI)
    fix r p
    assume r: "r \<in> set resources" and m: "(p, written ext opts r p) \<in> set (files wl)"
      and g: "k8sSpecGlob ext p"
    have "\<exists>s. parseKubernetesSpecFile ext p (written ext opts r p) = Inr s
            \<and> specIdentity s = specIdentity r"
      using reads r m g unfolding written_def same by blast
    then show "fileIdentity ext (p, written ext opts r p) = Some (specIdentity r)"
      using g by (rule fileIdentity_written)
  qed
  have sub: "fst ` set (files w) \<subseteq> fst ` set (files ?w)" by simp
  have glob': "\<forall>p \<in> fst ` set (files wl). p \<notin> fst ` set (files w) \<longrightarrow> k8sSpecGlob ext p"
    using glob same by simp
  from tracked_loop[OF loop t0 alike0 rt sub glob' paths]
  have "tracked ext opts (files w) ([] @ resources) (files wl)" by simp
  then have t1: "tracked ext opts (files w) resources (files ?w1)"
    using same by simp
  then have t1': "tracked ext opts (files w) resources (files w1)" by simp
  have d1: "distinct (map fst (files w1))" using t1' by (simp add: tracked_def)
  have content: "\<forall>r \<in> set resources. \<exists>f.
      matchSpec r (fst (scanSpecs ext (files w1))) = Some f
      \<and> getFile w1 (file' f)
          = Some (kubernetesSpecStringify ext r (if yamlPath (file' f) then Yaml else Json)
                    (secretKey opts))"
  proof
    fix r assume "r \<in> set resources"
    from tracked_matched[OF t1' this] obtain f where
      m: "matchSpec r (fst (scanSpecs ext (files w1))) = Some f"
      and mem: "(file' f, written ext opts r (file' f)) \<in> set (files w1)"
      by blast
    have "map_of (files w1) (file' f) = Some (written ext opts r (file' f))"
      using d1 mem by (rule map_of_is_SomeI)
    then show "\<exists>f. matchSpec r (fst (scanSpecs ext (files w1))) = Some f
      \<and> getFile w1 (file' f)
          = Some (kubernetesSpecStringify ext r (if yamlPath (file' f) then Yaml else Json)
                    (secretKey opts))"
      using m by (auto simp add: getFile_def written_def)
  qed
  have "syncLoop ext SyncUpsert opts (fst (scanSpecs ext (files ?w1))) resources ?w1 = Returns () ?w1"
    using t1 by (rule second_loop) simp
  then have loop2: "syncLoop ext SyncUpsert opts (fst (scanSpecs ext (files w1))) resources ?w1
      = Returns () ?w1"
    by simp
  have "isClean ?w1" using clean by (simp add: isClean_def)
  then have "commitAndPush ext SyncUpsert app ?w1 = Returns () ?w1"
    by (simp add: commitAndPush_def)
  then have "syncResources ext app resources SyncUpsert opts w1 = Returns () ?w1"
    unfolding syncResources_unfold loop2 by simp
  then show ?thesis using content clean by blast
qed

lemma sync_strings:
  "kubernetesSpecStringify (testExternals t) toninaServiceAccount Yaml None
     = ''yaml ServiceAccount black-angel/tonina ''"
  "kubernetesSpecStringify (testExternals t) toninaServiceAccount Json None
     = ''json ServiceAccount black-angel/tonina \<newline>''"
  "kubernetesSpecStringify (testExternals t) toninaIngress Yaml None
     = ''yaml Ingress black-angel/tonina ''"
  "kubernetesSpecStringify (testExternals t) toninaIngress Json None
     = ''json Ingress black-angel/tonina \<newline>''"
  by (simp_all add: kubernetesSpecStringify_def testExternals_def describe_def
        toninaServiceAccount_def toninaIngress_def testObject_def)

lemma sync_parse:
  "parseKubernetesSpecFile (testExternals syncTable) p ''{'' = Inl ''Unexpected token''"
  "parseKubernetesSpecFile (testExternals syncTable) p ''{}'' = Inl ''Unexpected token''"
  "parseKubernetesSpecFile (testExternals syncTable) p ''kind: ServiceAccount''
     = Inr toninaServiceAccount"
  "parseKubernetesSpecFile (testExternals syncTable) p ''yaml ServiceAccount black-angel/tonina ''
     = Inr toninaServiceAccount"
  "parseKubernetesSpecFile (testExternals syncTable) p ''json ServiceAccount black-angel/tonina \<newline>''
     = Inr toninaServiceAccount"
  "parseKubernetesSpecFile (testExternals syncTable) p ''yaml Ingress black-angel/tonina ''
     = Inr toninaIngress"
  "parseKubernetesSpecFile (testExternals syncTable) p ''json Ingress black-angel/tonina \<newline>''
     = Inr toninaIngress"
  by (simp_all add: testExternals_def syncTable_def)

lemma sync_glob: "k8sSpecGlob (testExternals t) ''80_black-angel_tonina_ingress.json''"
  by (simp add: testExternals_def suffix_to_prefix)

lemma sync_scan:
  "scanSpecs (testExternals syncTable) (files toninaWorld)
   = ([\<lparr>file' = ''black-angel-tonina-service-acct.yaml'', spec = toninaServiceAccount\<rparr>],
      [''Failed to process sync repo spec black-angel-tonina-deployment.json, ignoring: Unexpected token'',
       ''Failed to process sync repo spec 50_black-angel_tonina_service.json, ignoring: Unexpected token''])"
  by (simp add: toninaWorld_def tonina_glob sync_parse)

lemma sync_first_loop:
  "syncLoop (testExternals syncTable) SyncUpsert testOptions
     [\<lparr>file' = ''black-angel-tonina-service-acct.yaml'', spec = toninaServiceAccount\<rparr>]
     [toninaServiceAccount, toninaIngress]
     (toninaWorld\<lparr>logLines := logLines toninaWorld @
        [''Failed to process sync repo spec black-angel-tonina-deployment.json, ignoring: Unexpected token'',
         ''Failed to process sync repo spec 50_black-angel_tonina_service.json, ignoring: Unexpected token'']\<rparr>)
   = Returns () (toninaSynced\<lparr>headFiles := headFiles toninaWorld, commits := [], pushes := 0\<rparr>)"
proof -
  have m: "matchSpec toninaServiceAccount
        [\<lparr>file' = ''black-angel-tonina-service-acct.yaml'', spec = toninaServiceAccount\<rparr>]
      = Some \<lparr>file' = ''black-angel-tonina-service-acct.yaml'', spec = toninaServiceAccount\<rparr>"
    "matchSpec toninaIngress
        [\<lparr>file' = ''black-angel-tonina-service-acct.yaml'', spec = toninaServiceAccount\<rparr>]
      = None"
    by (simp_all add: matchSpec_def toninaServiceAccount_def toninaIngress_def testObject_def)
  have y: "yamlPath ''black-angel-tonina-service-acct.yaml''"
    by (simp add: yamlPath_def suffix_to_prefix)
  show ?thesis
    by (simp add: m resourceUpserted_def y sync_strings testOptions_def setContent_def Let_def
          uniqueSpecFile_def ingress_basename addFile_def getFile_def
          toninaWorld_def toninaSynced_def)
qed

lemma twin_basename:
  "kubernetesSpecFileBasename (testExternals t) twinA = Inr ''70_black-angel_tonina_deployment''"
  "kubernetesSpecFileBasename (testExternals t) twinB = Inr ''70_black-angel_tonina_deployment''"
  by (simp_all add: kubernetesSpecFileBasename_def specPrefix_def string_eval twinA_def twinB_def
        testObject_def testExternals_def)

lemma twin_strings:
  "kubernetesSpecStringify (testExternals t) twinA Json None
     = ''json Deployment black-angel/tonina replicas: 1\<newline>''"
  "kubernetesSpecStringify (testExternals t) twinB Json None
     = ''json Deployment black-angel/tonina replicas: 2\<newline>''"
  by (simp_all add: kubernetesSpecStringify_def testExternals_def describe_def twinA_def twinB_def
        testObject_def)

lemma update_commit_message:
  "commitMessage (testExternals t) SyncUpsert tonina
     = ''Update specs for black-angel/tonina\<newline>\<newline>[atomist:generated] [atomist:sync-commit=@atomist/sdm-pack-k8s]\<newline>''"
  by (simp add: commitMessage_def appName_def tonina_def testExternals_def)

lemma testExternals_succeed:
  "commitError (testExternals t) = None" "pushError (testExternals t) = None"
  by (simp_all add: testExternals_def)

lemma synced_scan:
  "scanSpecs (testExternals syncTable) (files toninaSynced)
   = ([\<lparr>file' = ''black-angel-tonina-service-acct.yaml'', spec = toninaServiceAccount\<rparr>,
       \<lparr>file' = ''80_black-angel_tonina_ingress.json'', spec = toninaIngress\<rparr>],
      [''Failed to process sync repo spec black-angel-tonina-deployment.json, ignoring: Unexpected token'',
       ''Failed to process sync repo spec 50_black-angel_tonina_service.json, ignoring: Unexpected token''])"
  by (simp add: toninaSynced_def tonina_glob sync_glob sync_parse)

lemma synced_match:
  "matchSpec toninaServiceAccount
     [\<lparr>file' = ''black-angel-tonina-service-acct.yaml'', spec = toninaServiceAccount\<rparr>,
      \<lparr>file' = ''80_black-angel_tonina_ingress.json'', spec = toninaIngress\<rparr>]
   = Some \<lparr>file' = ''black-angel-tonina-service-acct.yaml'', spec = toninaServiceAccount\<rparr>"
  "matchSpec toninaIngress
     [\<lparr>file' = ''black-angel-tonina-service-acct.yaml'', spec = toninaServiceAccount\<rparr>,
      \<lparr>file' = ''80_black-angel_tonina_ingress.json'', spec = toninaIngress\<rparr>]
   = Some \<lparr>file' = ''80_black-angel_tonina_ingress.json'', spec = toninaIngress\<rparr>"
  by (simp_all add: matchSpec_def toninaServiceAccount_def toninaIngress_def testObject_def)

lemma synced_formats:
  "yamlPath ''black-angel-tonina-service-acct.yaml''"
  "\<not> yamlPath ''80_black-angel_tonina_ingress.json''"
  by (simp_all add: yamlPath_def suffix_to_prefix)

lemma repeated_pass1_loop:
  "syncLoop (testExternals twinTable) SyncUpsert testOptions [] [twinA, twinA] emptyWorld
   = Returns () (repeatedWorld\<lparr>headFiles := [], commits := [], pushes := 0\<rparr>)"
  by (simp add: matchSpec_def resourceUpserted_def uniqueSpecFile_def twin_basename twin_strings
        testOptions_def addFile_def getFile_def emptyWorld_def repeatedWorld_def)

lemma repeated_pass1:
  "syncResources (testExternals twinTable) tonina [twinA, twinA] SyncUpsert testOptions emptyWorld
   = Returns () repeatedWorld"
proof -
  have e: "emptyWorld\<lparr>logLines := logLines emptyWorld @ []\<rparr> = emptyWorld"
    by (simp add: emptyWorld_def)
  have c: "commitAndPush (testExternals twinTable) SyncUpsert tonina
             (repeatedWorld\<lparr>headFiles := [], commits := [], pushes := 0\<rparr>) = Returns () repeatedWorld"
    by (simp add: commitAndPush_def isClean_def commit_def push_def update_commit_message
          testExternals_succeed repeatedWorld_def)
  have s: "scanSpecs (testExternals twinTable) (files emptyWorld) = ([], [])"
    by (simp add: emptyWorld_def)
  show ?thesis
    unfolding syncResources_unfold s fst_conv snd_conv e repeated_pass1_loop
    by (simp only: outcome.case c)
qed

lemma repeated_scan:
  "scanSpecs (testExternals twinTable) (files repeatedWorld)
   = ([\<lparr>file' = ''70_black-angel_tonina_deployment.json'', spec = twinA\<rparr>,
       \<lparr>file' = ''70_black-angel_tonina_deployment_0a1b2c3d.json'', spec = twinA\<rparr>], [])"
  by (simp add: repeatedWorld_def testExternals_def twinTable_def suffix_to_prefix)

lemma repeated_reads:
  "\<forall>r \<in> set [twinA, twinA]. \<forall>p.
     (p, kubernetesSpecStringify (testExternals twinTable) r (if yamlPath p then Yaml else Json)
           (secretKey testOptions)) \<in> set (files repeatedWorld)
     \<and> k8sSpecGlob (testExternals twinTable) p \<longrightarrow>
     (\<exists>s. parseKubernetesSpecFile (testExternals twinTable) p
            (kubernetesSpecStringify (testExternals twinTable) r (if yamlPath p then Yaml else Json)
               (secretKey testOptions)) = Inr s
         \<and> specIdentity s = specIdentity r)"
proof -
  have json: "\<not> yamlPath ''70_black-angel_tonina_deployment.json''"
    "\<not> yamlPath ''70_black-angel_tonina_deployment_0a1b2c3d.json''"
    by (simp_all add: yamlPath_def suffix_to_prefix)
  have parse: "parseKubernetesSpecFile (testExternals twinTable) p
      ''json Deployment black-angel/tonina replicas: 1\<newline>'' = Inr twinA" for p
    by (simp add: testExternals_def twinTable_def)
  have one: "\<exists>s. parseKubernetesSpecFile (testExternals twinTable) p
            (kubernetesSpecStringify (testExternals twinTable) twinA (if yamlPath p then Yaml else Json)
               (secretKey testOptions)) = Inr s
         \<and> specIdentity s = specIdentity twinA"
    if "p = ''70_black-angel_tonina_deployment.json''
        \<or> p = ''70_black-angel_tonina_deployment_0a1b2c3d.json''" for p
    using that json by (auto simp add: twin_strings testOptions_def parse)
  have path: "p = ''70_black-angel_tonina_deployment.json''
        \<or> p = ''70_black-angel_tonina_deployment_0a1b2c3d.json''"
    if "(p, c) \<in> set (files repeatedWorld)" for p c
    using that by (auto simp add: repeatedWorld_def)
  show ?thesis
  proof (intro ballI allI impI)
    fix r p
    assume r: "r \<in> set [twinA, twinA]"
      and a: "(p, kubernetesSpecStringify (testExternals twinTable) r (if yamlPath p then Yaml else Json)
           (secretKey testOptions)) \<in> set (files repeatedWorld)
         \<and> k8sSpecGlob (testExternals twinTable) p"
    from r have r': "r = twinA" by simp
    from a have "p = ''70_black-angel_tonina_deployment.json''
        \<or> p = ''70_black-angel_tonina_deployment_0a1b2c3d.json''"
      using path by blast
    then show "\<exists>s. parseKubernetesSpecFile (testExternals twinTable) p
            (kubernetesSpecStringify (testExternals twinTable) r (if yamlPath p then Yaml else Json)
               (secretKey testOptions)) = Inr s
         \<and> specIdentity s = specIdentity r"
      unfolding r' by (rule one)
  qed
qed

theorem sync_twice_clean_witness:
  "syncResources (testExternals syncTable) tonina [toninaServiceAccount, toninaIngress] SyncUpsert
       testOptions toninaWorld
     = Returns () toninaSynced
   \<and> getFile toninaSynced ''black-angel-tonina-service-acct.yaml''
     = Some ''yaml ServiceAccount black-angel/tonina ''
   \<and> getFile toninaSynced ''80_black-angel_tonina_ingress.json''
     = Some ''json Ingress black-angel/tonina \<newline>''
   \<and> isClean toninaSynced
   \<and> syncResources (testExternals syncTable) tonina [toninaServiceAccount, toninaIngress] SyncUpsert
       testOptions toninaSynced
     = Returns () (toninaSynced\<lparr>logLines := logLines toninaSynced @
        [''Failed to process sync repo spec black-angel-tonina-deployment.json, ignoring: Unexpected token'',
         ''Failed to process sync repo spec 50_black-angel_tonina_service.json, ignoring: Unexpected token'']\<rparr>)
   \<and> syncResources (testExternals twinTable) tonina [twinA, twinA] SyncUpsert testOptions emptyWorld
     = Returns () repeatedWorld
   \<and> syncResources (testExternals twinTable) tonina [twinA, twinA] SyncUpsert testOptions repeatedWorld
     = Returns () repeatedWorld"
proof -
  let ?x = "testExternals syncTable"
  let ?rs = "[toninaServiceAccount, toninaIngress]"
  let ?warnings = "[''Failed to process sync repo spec black-angel-tonina-deployment.json, ignoring: Unexpected token'',
         ''Failed to process sync repo spec 50_black-angel_tonina_service.json, ignoring: Unexpected token'']"
  have c: "commitAndPush ?x SyncUpsert tonina
             (toninaSynced\<lparr>headFiles := headFiles toninaWorld, commits := [], pushes := 0\<rparr>)
           = Returns () toninaSynced"
    by (simp add: commitAndPush_def isClean_def commit_def push_def update_commit_message
          testExternals_succeed toninaWorld_def toninaSynced_def)
  have first: "syncResources ?x tonina ?rs SyncUpsert testOptions toninaWorld = Returns () toninaSynced"
    unfolding syncResources_unfold sync_scan fst_conv snd_conv sync_first_loop
    by (simp only: outcome.case c)
  have alike: "\<forall>r \<in> set ?rs. \<forall>r' \<in> set ?rs. specIdentity r = specIdentity r' \<longrightarrow>
        (\<forall>fmt. kubernetesSpecStringify ?x r fmt (secretKey testOptions)
                 = kubernetesSpecStringify ?x r' fmt (secretKey testOptions))"
    by (simp add: specIdentity_def toninaServiceAccount_def toninaIngress_def testObject_def)
  have paths: "distinct (map fst (files toninaWorld))"
    by (simp add: toninaWorld_def)
  have roundtrip: "\<forall>r \<in> set ?rs. \<forall>p. \<exists>s.
        parseKubernetesSpecFile ?x p
          (kubernetesSpecStringify ?x r (if yamlPath p then Yaml else Json) (secretKey testOptions)) = Inr s
        \<and> specIdentity s = specIdentity r"
    by (simp add: testOptions_def sync_strings sync_parse)
  have reads: "\<forall>r \<in> set ?rs. \<forall>p.
        (p, kubernetesSpecStringify ?x r (if yamlPath p then Yaml else Json) (secretKey testOptions))
          \<in> set (files toninaSynced) \<and> k8sSpecGlob ?x p \<longrightarrow>
        (\<exists>s. parseKubernetesSpecFile ?x p
               (kubernetesSpecStringify ?x r (if yamlPath p then Yaml else Json) (secretKey testOptions))
                = Inr s
            \<and> specIdentity s = specIdentity r)"
    using roundtrip by blast
  have glob: "\<forall>p \<in> fst ` set (files toninaSynced). p \<notin> fst ` set (files toninaWorld)
        \<longrightarrow> k8sSpecGlob ?x p"
    by (simp add: toninaSynced_def toninaWorld_def sync_glob)
  note main = sync_twice_clean[OF alike paths first glob reads]
  have sa: "toninaServiceAccount \<in> set ?rs" and ing: "toninaIngress \<in> set ?rs" by simp_all
  from main[THEN conjunct1, rule_format, OF sa]
  have f1: "getFile toninaSynced ''black-angel-tonina-service-acct.yaml''
     = Some ''yaml ServiceAccount black-angel/tonina ''"
    unfolding synced_scan fst_conv synced_match
    by (auto simp add: synced_formats sync_strings testOptions_def)
  from main[THEN conjunct1, rule_format, OF ing]
  have f2: "getFile toninaSynced ''80_black-angel_tonina_ingress.json''
     = Some ''json Ingress black-angel/tonina \<newline>''"
    unfolding synced_scan fst_conv synced_match
    by (auto simp add: synced_formats sync_strings testOptions_def)
  have clean: "isClean toninaSynced" using main by blast
  have second: "syncResources ?x tonina ?rs SyncUpsert testOptions toninaSynced
     = Returns () (toninaSynced\<lparr>logLines := logLines toninaSynced @ ?warnings\<rparr>)"
    using main[THEN conjunct2, THEN conjunct2] unfolding synced_scan snd_conv .
  have alike2: "\<forall>r \<in> set [twinA, twinA]. \<forall>r' \<in> set [twinA, twinA].
        specIdentity r = specIdentity r' \<longrightarrow>
        (\<forall>fmt. kubernetesSpecStringify (testExternals twinTable) r fmt (secretKey testOptions)
                 = kubernetesSpecStringify (testExternals twinTable) r' fmt (secretKey testOptions))"
    by simp
  have paths2: "distinct (map fst (files emptyWorld))"
    by (simp add: emptyWorld_def)
  have glob2: "\<forall>p \<in> fst ` set (files repeatedWorld). p \<notin> fst ` set (files emptyWorld)
        \<longrightarrow> k8sSpecGlob (testExternals twinTable) p"
    by (simp add: repeatedWorld_def emptyWorld_def testExternals_def suffix_to_prefix)
  have same2: "repeatedWorld\<lparr>logLines := logLines repeatedWorld @ []\<rparr> = repeatedWorld"
    by (simp add: repeatedWorld_def)
  have again: "syncResources (testExternals twinTable) tonina [twinA, twinA] SyncUpsert testOptions
       repeatedWorld = Returns () repeatedWorld"
    using sync_twice_clean[OF alike2 paths2 repeated_pass1 glob2 repeated_reads,
        THEN conjunct2, THEN conjunct2]
    unfolding repeated_scan snd_conv same2 .
  show ?thesis using first f1 f2 clean second repeated_pass1 again by blast
qed

text \<open>
  The claim as first stated, for every list of resources, fails for a list that holds two
  resources of one identity and different contents: the first pass writes each to a file
  of its own, the second pass matches both to the first of the two files, leaves the
  second resource in it, and commits and pushes again.
\<close>

lemma twin_pass1_loop:
  "syncLoop (testExternals twinTable) SyncUpsert testOptions [] [twinA, twinB] emptyWorld
   = Returns () (twinWorld1\<lparr>headFiles := [], commits := [], pushes := 0\<rparr>)"
  by (simp add: matchSpec_def resourceUpserted_def uniqueSpecFile_def twin_basename twin_strings
        testOptions_def addFile_def getFile_def emptyWorld_def twinWorld1_def)

lemma twin_pass1:
  "syncResources (testExternals twinTable) tonina [twinA, twinB] SyncUpsert testOptions emptyWorld
   = Returns () twinWorld1"
proof -
  have e: "emptyWorld\<lparr>logLines := logLines emptyWorld @ []\<rparr> = emptyWorld"
    by (simp add: emptyWorld_def)
  have c: "commitAndPush (testExternals twinTable) SyncUpsert tonina
             (twinWorld1\<lparr>headFiles := [], commits := [], pushes := 0\<rparr>) = Returns () twinWorld1"
    by (simp add: commitAndPush_def isClean_def commit_def push_def update_commit_message
          testExternals_succeed twinWorld1_def)
  have s: "scanSpecs (testExternals twinTable) (files emptyWorld) = ([], [])"
    by (simp add: emptyWorld_def)
  show ?thesis
    unfolding syncResources_unfold s fst_conv snd_conv e twin_pass1_loop
    by (simp only: outcome.case c)
qed

lemma twin_scan:
  "scanSpecs (testExternals twinTable) (files twinWorld1)
   = ([\<lparr>file' = ''70_black-angel_tonina_deployment.json'', spec = twinA\<rparr>,
       \<lparr>file' = ''70_black-angel_tonina_deployment_0a1b2c3d.json'', spec = twinB\<rparr>], [])"
  by (simp add: twinWorld1_def testExternals_def twinTable_def suffix_to_prefix)

lemma twin_pass2_loop:
  "syncLoop (testExternals twinTable) SyncUpsert testOptions
     [\<lparr>file' = ''70_black-angel_tonina_deployment.json'', spec = twinA\<rparr>,
      \<lparr>file' = ''70_black-angel_tonina_deployment_0a1b2c3d.json'', spec = twinB\<rparr>]
     [twinA, twinB] twinWorld1
   = Returns () (twinWorld2\<lparr>headFiles := headFiles twinWorld1, commits := commits twinWorld1,
                   pushes := 1\<rparr>)"
proof -
  have m: "matchSpec twinA [\<lparr>file' = ''70_black-angel_tonina_deployment.json'', spec = twinA\<rparr>,
      \<lparr>file' = ''70_black-angel_tonina_deployment_0a1b2c3d.json'', spec = twinB\<rparr>]
      = Some \<lparr>file' = ''70_black-angel_tonina_deployment.json'', spec = twinA\<rparr>"
    "matchSpec twinB [\<lparr>file' = ''70_black-angel_tonina_deployment.json'', spec = twinA\<rparr>,
      \<lparr>file' = ''70_black-angel_tonina_deployment_0a1b2c3d.json'', spec = twinB\<rparr>]
      = Some \<lparr>file' = ''70_black-angel_tonina_deployment.json'', spec = twinA\<rparr>"
    by (simp_all add: matchSpec_def twinA_def twinB_def)
  have y: "\<not> yamlPath ''70_black-angel_tonina_deployment.json''"
    by (simp add: yamlPath_def suffix_to_prefix)
  show ?thesis
    by (simp add: m resourceUpserted_def y twin_strings testOptions_def setContent_def Let_def
          twinWorld1_def twinWorld2_def)
qed

theorem sync_twice_counterexample:
  "syncResources (testExternals twinTable) tonina [twinA, twinB] SyncUpsert testOptions emptyWorld
     = Returns () twinWorld1
   \<and> syncResources (testExternals twinTable) tonina [twinA, twinB] SyncUpsert testOptions twinWorld1
     = Returns () twinWorld2
   \<and> length (commits twinWorld1) = 1 \<and> length (commits twinWorld2) = 2
   \<and> pushes twinWorld1 = 1 \<and> pushes twinWorld2 = 2"
proof -
  have e: "twinWorld1\<lparr>logLines := logLines twinWorld1 @ []\<rparr> = twinWorld1"
    by (simp add: twinWorld1_def)
  have c: "commitAndPush (testExternals twinTable) SyncUpsert tonina
             (twinWorld2\<lparr>headFiles := headFiles twinWorld1, commits := commits twinWorld1,
                   pushes := 1\<rparr>) = Returns () twinWorld2"
    by (simp add: commitAndPush_def isClean_def commit_def push_def update_commit_message
          testExternals_succeed twinWorld1_def twinWorld2_def)
  have "syncResources (testExternals twinTable) tonina [twinA, twinB] SyncUpsert testOptions twinWorld1
     = Returns () twinWorld2"
    unfolding syncResources_unfold twin_scan fst_conv snd_conv e twin_pass2_loop
    by (simp only: outcome.case c)
  then show ?thesis
    using twin_pass1 by (simp add: twinWorld1_def twinWorld2_def)
qed

section \<open>Properties of the scan\<close>

text \<open>
  C9: in the scan of every sync pass, a file that the glob accepts and that fails to
  parse is logged and skipped: the specs are those of the other files (every file that
  parses, in the order of the walk), the warning is logged in its place, and the pass
  goes on with the loop over the resources and the commit; the scan itself never throws.
\<close>

theorem scanSpecs_skips_unparsed:
  "k8sSpecGlob ext path \<Longrightarrow> parseKubernetesSpecFile ext path content = Inl m \<Longrightarrow>
   fst (scanSpecs ext (before @ (path, content) # after)) = fst (scanSpecs ext (before @ after))
   \<and> snd (scanSpecs ext (before @ (path, content) # after)) =
        snd (scanSpecs ext before)
        @ [''Failed to process sync repo spec '' @ path @ '', ignoring: '' @ m]
        @ snd (scanSpecs ext after)
   \<and> fst (scanSpecs ext (before @ (path, content) # after)) =
        concat (map (\<lambda>(p, c).
                  if k8sSpecGlob ext p
                  then (case parseKubernetesSpecFile ext p c of
                          Inr s \<Rightarrow> [\<lparr>file' = p, spec = s\<rparr>]
                        | Inl m \<Rightarrow> [])
                  else []) (before @ after))
   \<and> syncResources ext app resources action opts (w\<lparr>files := before @ (path, content) # after\<rparr>) =
        (case syncLoop ext action opts (fst (scanSpecs ext (before @ after))) resources
                (w\<lparr>files := before @ (path, content) # after,
                   logLines := logLines w @ snd (scanSpecs ext before)
                     @ [''Failed to process sync repo spec '' @ path @ '', ignoring: '' @ m]
                     @ snd (scanSpecs ext after)\<rparr>) of
           Returns u w' \<Rightarrow> commitAndPush ext action app w'
         | Throws e w' \<Rightarrow> Throws e w'
         | Unfinished \<Rightarrow> Unfinished)"
proof -
  assume g: "k8sSpecGlob ext path" and p: "parseKubernetesSpecFile ext path content = Inl m"
  have one: "scanSpecs ext ((path, content) # after) =
      (fst (scanSpecs ext after),
       (''Failed to process sync repo spec '' @ path @ '', ignoring: '' @ m)
         # snd (scanSpecs ext after))"
    using g p by (simp add: split_beta)
  have a: "fst (scanSpecs ext (before @ (path, content) # after)) = fst (scanSpecs ext (before @ after))"
    by (simp add: scanSpecs_append one del: scanSpecs.simps)
  have b: "snd (scanSpecs ext (before @ (path, content) # after)) =
        snd (scanSpecs ext before)
        @ [''Failed to process sync repo spec '' @ path @ '', ignoring: '' @ m]
        @ snd (scanSpecs ext after)"
    by (simp add: scanSpecs_append one del: scanSpecs.simps)
  have c: "fst (scanSpecs ext (before @ (path, content) # after)) =
        concat (map (\<lambda>(p, c).
                  if k8sSpecGlob ext p
                  then (case parseKubernetesSpecFile ext p c of
                          Inr s \<Rightarrow> [\<lparr>file' = p, spec = s\<rparr>]
                        | Inl m \<Rightarrow> [])
                  else []) (before @ after))"
    unfolding a by (rule scanSpecs_specs)
  have d: "syncResources ext app resources action opts (w\<lparr>files := before @ (path, content) # after\<rparr>) =
        (case syncLoop ext action opts (fst (scanSpecs ext (before @ after))) resources
                (w\<lparr>files := before @ (path, content) # after,
                   logLines := logLines w @ snd (scanSpecs ext before)
                     @ [''Failed to process sync repo spec '' @ path @ '', ignoring: '' @ m]
                     @ snd (scanSpecs ext after)\<rparr>) of
           Returns u w' \<Rightarrow> commitAndPush ext action app w'
         | Throws e w' \<Rightarrow> Throws e w'
         | Unfinished \<Rightarrow> Unfinished)"
    unfolding syncResources_unfold by (simp add: a b del: scanSpecs.simps)
  show ?thesis by (intro conjI a b c d)
qed

theorem scanSpecs_skips_unparsed_witness:
  "fst (scanSpecs (testExternals toninaTable) (files toninaWorld))
     = [\<lparr>file' = ''black-angel-tonina-service-acct.yaml'', spec = toninaServiceAccount\<rparr>]
   \<and> snd (scanSpecs (testExternals toninaTable) (files toninaWorld))
     = [''Failed to process sync repo spec black-angel-tonina-deployment.json, ignoring: Unexpected token'',
        ''Failed to process sync repo spec 50_black-angel_tonina_service.json, ignoring: Unexpected token'']"
proof -
  let ?x = "testExternals toninaTable"
  let ?after = "[(''50_black-angel_tonina_service.json'', ''{}''),
      (''black-angel-tonina-service-acct.yaml'', ''kind: ServiceAccount'')]"
  have fs: "files toninaWorld = [] @ (''black-angel-tonina-deployment.json'', ''{'') # ?after"
    by (simp add: toninaWorld_def)
  note skip = scanSpecs_skips_unparsed[of ?x "''black-angel-tonina-deployment.json''" "''{''"
      "''Unexpected token''" "[]" ?after, OF tonina_glob(1) tonina_parse(1)]
  have a: "fst (scanSpecs ?x (files toninaWorld)) = fst (scanSpecs ?x ([] @ ?after))"
    unfolding fs using skip by blast
  have b: "snd (scanSpecs ?x (files toninaWorld)) = snd (scanSpecs ?x [])
        @ [''Failed to process sync repo spec '' @ ''black-angel-tonina-deployment.json''
             @ '', ignoring: '' @ ''Unexpected token'']
        @ snd (scanSpecs ?x ?after)"
    unfolding fs using skip by blast
  show ?thesis
    unfolding a b by (simp add: tonina_scan del: scanSpecs.simps(2))
qed

section \<open>Properties of \<open>syncApplication\<close>\<close>

text \<open>
  C10: for every application and action, when the list of resources is empty or the
  configured sync options are not valid, \<open>syncApplication\<close> returns and leaves the
  state as it was: the project is not loaded, no file is read, written or deleted,
  nothing is committed or pushed.
\<close>

theorem syncApplication_skips:
  "resources = [] \<or> \<not> validSyncOptions ext syncOpts \<Longrightarrow>
   syncApplication ext syncOpts app resources action w = Returns () w"
  by (auto simp add: syncApplication_def)

theorem syncApplication_skips_witness:
  "syncApplication (testExternals toninaTable) testOptions tonina [] SyncUpsert toninaWorld
     = Returns () toninaWorld
   \<and> syncApplication (testExternals toninaTable) (testOptions\<lparr>repoOwner := []\<rparr>) tonina
       [toninaServiceAccount] SyncDelete toninaWorld
     = Returns () toninaWorld"
proof -
  have "\<not> validSyncOptions (testExternals toninaTable) (testOptions\<lparr>repoOwner := []\<rparr>)"
    by (simp add: testExternals_def)
  then show ?thesis
    using syncApplication_skips[of "[]" "testExternals toninaTable" testOptions tonina SyncUpsert toninaWorld]
      syncApplication_skips[of "[toninaServiceAccount]" "testExternals toninaTable"
         "testOptions\<lparr>repoOwner := []\<rparr>" tonina SyncDelete toninaWorld]
    by simp
qed

section \<open>Properties of the URI path builder\<close>

lemma pluralKind_examples:
  "pluralKind ''Service'' = ''services''" "pluralKind ''Ingress'' = ''ingresses''"
  by (simp_all add: pluralKind_def irregularPlurals_def string_eval)

text \<open>
  C1: for every resource object with the given \<open>apiVersion\<close>, kind, name and namespace,
  \<open>specUriPath\<close> returns the literal path: the \<open>v1\<close> Service \<open>repeater\<close> in
  \<open>fugazi\<close> under \<open>patch\<close> gives \<open>v1/namespaces/fugazi/services/repeater\<close>, the
  \<open>extensions/v1beta1\<close> Ingress \<open>repeater\<close> in \<open>fugazi\<close> under \<open>delete\<close> gives
  \<open>extensions/v1beta1/namespaces/fugazi/ingresses/repeater\<close>; in general the path is
  the prefix, the namespace segment when there is a namespace, the plural of the kind,
  and the name when the action appends it.
\<close>

theorem specUriPath_paths:
  "(apiVersion s = ''v1'' \<and> kind s = Some ''Service'' \<and> name (metadata s) = Some ''repeater''
      \<and> namespace (metadata s) = Some ''fugazi'' \<longrightarrow>
      specUriPath sfy s Patch = Inr ''v1/namespaces/fugazi/services/repeater'')
   \<and> (apiVersion s = ''extensions/v1beta1'' \<and> kind s = Some ''Ingress''
      \<and> name (metadata s) = Some ''repeater'' \<and> namespace (metadata s) = Some ''fugazi'' \<longrightarrow>
      specUriPath sfy s Delete = Inr ''extensions/v1beta1/namespaces/fugazi/ingresses/repeater'')
   \<and> (kind s = Some k \<longrightarrow>
      specUriPath sfy s Create =
        Inr (apiVersion s @ ''/''
             @ (case namespace (metadata s) of Some m \<Rightarrow> ''namespaces/'' @ m @ ''/'' | None \<Rightarrow> [])
             @ pluralKind k))
   \<and> (kind s = Some k \<and> name (metadata s) = Some n \<and> namespace (metadata s) = Some m
      \<and> a \<in> {Delete, Patch, Read, Replace} \<longrightarrow>
      specUriPath sfy s a =
        Inr (apiVersion s @ ''/'' @ ''namespaces/'' @ m @ ''/'' @ pluralKind k @ ''/'' @ n))"
  by (auto simp add: specUriPath_def appendName_def pluralKind_examples)

theorem specUriPath_paths_witness:
  "specUriPath describe (testObject ''v1'' ''Service'' ''repeater'' (Some ''fugazi'')) Patch
     = Inr ''v1/namespaces/fugazi/services/repeater''
   \<and> specUriPath describe
       (testObject ''extensions/v1beta1'' ''Ingress'' ''repeater'' (Some ''fugazi'')) Delete
     = Inr ''extensions/v1beta1/namespaces/fugazi/ingresses/repeater''
   \<and> specUriPath describe (testObject ''v1'' ''Namespace'' ''repeater'' None) Create
     = Inr ''v1/namespaces''
   \<and> specUriPath describe (testObject ''apps/v1'' ''Deployment'' ''repeater'' (Some ''fugazi'')) Read
     = Inr ''apps/v1/namespaces/fugazi/deployments/repeater''"
proof -
  have p: "pluralKind ''Namespace'' = ''namespaces''" "pluralKind ''Deployment'' = ''deployments''"
    by (simp_all add: pluralKind_def irregularPlurals_def string_eval)
  show ?thesis
    using specUriPath_paths[where s = "testObject ''v1'' ''Service'' ''repeater'' (Some ''fugazi'')"
         and sfy = describe]
      specUriPath_paths[where s = "testObject ''extensions/v1beta1'' ''Ingress'' ''repeater'' (Some ''fugazi'')"
         and sfy = describe]
      specUriPath_paths[where s = "testObject ''v1'' ''Namespace'' ''repeater'' None"
         and k = "''Namespace''" and sfy = describe]
      specUriPath_paths[where s = "testObject ''apps/v1'' ''Deployment'' ''repeater'' (Some ''fugazi'')"
         and k = "''Deployment''" and n = "''repeater''" and sfy = describe and m = "''fugazi''"
         and a = Read]
    by (simp add: testObject_def p)
qed

section \<open>Properties of the classifier\<close>

lemma status_not_cluster: "k \<in> set clusterStatuses \<Longrightarrow> k \<notin> set clusterResources"
  unfolding clusterStatuses_def set_simps insert_iff empty_iff
  by (elim disjE FalseE; simp add: clusterResources_def)

lemma componentStatus_unlisted:
  "''ComponentStatus'' \<notin> set clusterResources" "''ComponentStatus'' \<notin> set clusterStatuses"
  by (simp_all add: clusterResources_def clusterStatuses_def)

text \<open>
  C2: for every action, \<open>isClusterResource\<close> is true of every kind of the fixed list of
  cluster resources; of the seven status kinds it is true exactly when the action is
  \<open>patch\<close>, \<open>read\<close> or \<open>replace\<close>; of \<open>ComponentStatus\<close> exactly when the action
  is \<open>list\<close> or \<open>read\<close>; and it is false of every other kind, among them
  \<open>ConfigMap\<close>, \<open>Deployment\<close>, \<open>Pod\<close> and \<open>Service\<close>, for every action.
\<close>

theorem isClusterResource_classes:
  "(k \<in> {''APIService'', ''AuditSink'', ''CertificateSigningRequest'', ''ClusterCustomObject'',
        ''ClusterRole'', ''ClusterRoleBinding'', ''CustomResourceDefinition'',
        ''InitializerConfiguration'', ''MutatingWebhookConfiguration'', ''Namespace'', ''Node'',
        ''PersistentVolume'', ''PodSecurityPolicy'', ''PriorityClass'',
        ''SelfSubjectAccessReview'', ''SelfSubjectRulesReview'', ''StorageClass'',
        ''SubjectAccessReview'', ''TokenReview'', ''ValidatingWebhookConfiguration'',
        ''VolumeAttachment''} \<longrightarrow> isClusterResource a k)
   \<and> (k \<in> {''APIServiceStatus'', ''CertificateSigningRequestStatus'',
        ''CustomResourceDefinitionStatus'', ''NamespaceStatus'', ''NodeStatus'',
        ''PersistentVolumeStatus'', ''VolumeAttachmentStatus''} \<longrightarrow>
        (isClusterResource a k \<longleftrightarrow> a \<in> {Patch, Read, Replace}))
   \<and> (isClusterResource a ''ComponentStatus'' \<longleftrightarrow> a \<in> {List, Read})
   \<and> (k \<notin> set clusterResources \<and> k \<notin> set clusterStatuses \<and> k \<noteq> ''ComponentStatus'' \<longrightarrow>
        \<not> isClusterResource a k)
   \<and> (k \<in> {''ConfigMap'', ''CronJob'', ''DaemonSet'', ''Deployment'', ''Pod'', ''Role'',
        ''Service'', ''ServiceAccount'', ''StatefulSet''} \<longrightarrow> \<not> isClusterResource a k)"
proof (intro conjI impI)
  assume "k \<in> {''APIService'', ''AuditSink'', ''CertificateSigningRequest'', ''ClusterCustomObject'',
        ''ClusterRole'', ''ClusterRoleBinding'', ''CustomResourceDefinition'',
        ''InitializerConfiguration'', ''MutatingWebhookConfiguration'', ''Namespace'', ''Node'',
        ''PersistentVolume'', ''PodSecurityPolicy'', ''PriorityClass'',
        ''SelfSubjectAccessReview'', ''SelfSubjectRulesReview'', ''StorageClass'',
        ''SubjectAccessReview'', ''TokenReview'', ''ValidatingWebhookConfiguration'',
        ''VolumeAttachment''}"
  then have "k \<in> set clusterResources" by (simp add: clusterResources_def)
  then show "isClusterResource a k" by (simp add: isClusterResource_def)
next
  assume "k \<in> {''APIServiceStatus'', ''CertificateSigningRequestStatus'',
        ''CustomResourceDefinitionStatus'', ''NamespaceStatus'', ''NodeStatus'',
        ''PersistentVolumeStatus'', ''VolumeAttachmentStatus''}"
  then have s: "k \<in> set clusterStatuses" by (simp add: clusterStatuses_def)
  then have "k \<notin> set clusterResources" by (rule status_not_cluster)
  then show "isClusterResource a k \<longleftrightarrow> a \<in> {Patch, Read, Replace}"
    using s by (simp add: isClusterResource_def)
next
  show "isClusterResource a ''ComponentStatus'' \<longleftrightarrow> a \<in> {List, Read}"
    by (simp add: isClusterResource_def componentStatus_unlisted)
next
  assume "k \<notin> set clusterResources \<and> k \<notin> set clusterStatuses \<and> k \<noteq> ''ComponentStatus''"
  then show "\<not> isClusterResource a k" by (simp add: isClusterResource_def)
next
  assume "k \<in> {''ConfigMap'', ''CronJob'', ''DaemonSet'', ''Deployment'', ''Pod'', ''Role'',
        ''Service'', ''ServiceAccount'', ''StatefulSet''}"
  then show "\<not> isClusterResource a k"
    unfolding insert_iff empty_iff
    by (elim disjE FalseE; simp add: isClusterResource_def clusterResources_def clusterStatuses_def)
qed

theorem isClusterResource_classes_witness:
  "isClusterResource Create ''Namespace''
   \<and> isClusterResource Patch ''NodeStatus'' \<and> \<not> isClusterResource List ''NodeStatus''
   \<and> isClusterResource List ''ComponentStatus'' \<and> \<not> isClusterResource Patch ''ComponentStatus''
   \<and> \<not> isClusterResource Read ''Gateway''
   \<and> \<not> isClusterResource Delete ''Deployment''"
proof -
  have u: "''Gateway'' \<notin> set clusterResources \<and> ''Gateway'' \<notin> set clusterStatuses
           \<and> ''Gateway'' \<noteq> ''ComponentStatus''"
    by (simp add: clusterResources_def clusterStatuses_def)
  show ?thesis
    using isClusterResource_classes[of "''Namespace''" Create]
      isClusterResource_classes[of "''NodeStatus''" Patch]
      isClusterResource_classes[of "''NodeStatus''" List]
      isClusterResource_classes[of _ List]
      isClusterResource_classes[of _ Patch]
      isClusterResource_classes[of "''Gateway''" Read, THEN conjunct2, THEN conjunct2,
        THEN conjunct2, THEN conjunct1, rule_format, OF u]
      isClusterResource_classes[of "''Deployment''" Delete]
    by simp
qed

section \<open>Errors of the URI path builder\<close>



end
